theory Spec2Isabelle
  imports Complex_Main "HOL-Library.Word" "HOL-Library.Signed_Division"
begin

section \<open>The lattice backend: \<open>DilithiumWrapper\<close>\<close>

text \<open>
  \<open>Dilithiumwrapper.hpp\<close> declares a class with two byte vectors and a flag.  The three
  routines of the pq-crystals reference implementation (\<open>api.h\<close>) are external C code; they
  enter the model as a record of functions, so every theorem below holds for whatever these
  routines compute.  A C routine receives pointers into the wrapper's buffers, hence
  \<open>ref_keypair\<close> maps the two buffers it is handed to its return code and the contents of
  the two buffers when it returns.  \<open>Throws\<close> stands for an exception reaching the
  \<open>catch (...)\<close> handler that surrounds each call.  The members \<open>publicKey_\<close>,
  \<open>secretKey_\<close> and \<open>keysGenerated_\<close> lose their trailing underscore, which an
  Isabelle name cannot end with.
\<close>

type_synonym byte = "8 word"
type_synonym bytes = "byte list"

datatype 'a outcome = Throws | Returns 'a

record dilithium3_api =
  ref_keypair :: "bytes \<Rightarrow> bytes \<Rightarrow> (int \<times> bytes \<times> bytes) outcome"
  ref_signature :: "bytes \<Rightarrow> bytes \<Rightarrow> bytes \<Rightarrow> (int \<times> bytes \<times> nat) outcome"
  ref_verify :: "bytes \<Rightarrow> bytes \<Rightarrow> bytes \<Rightarrow> int outcome"

definition PUBLIC_KEY_BYTES :: nat where
  "PUBLIC_KEY_BYTES = 1952"

definition SECRET_KEY_BYTES :: nat where
  "SECRET_KEY_BYTES = 4032"

definition SIGNATURE_BYTES :: nat where
  "SIGNATURE_BYTES = 3309"

record DilithiumWrapper =
  publicKey :: bytes
  secretKey :: bytes
  keysGenerated :: bool

text \<open>The constructor: both buffers pre-sized and zero-filled, no keys.\<close>

definition DilithiumWrapper_new :: DilithiumWrapper where
  "DilithiumWrapper_new =
     \<lparr>publicKey = replicate PUBLIC_KEY_BYTES 0,
      secretKey = replicate SECRET_KEY_BYTES 0,
      keysGenerated = False\<rparr>"

definition DilithiumWrapper_hasKeys :: "DilithiumWrapper \<Rightarrow> bool" where
  "DilithiumWrapper_hasKeys s = keysGenerated s"


text \<open>\<open>std::vector::resize\<close>: truncate, or pad with zero bytes.\<close>

definition resize :: "bytes \<Rightarrow> nat \<Rightarrow> bytes" where
  "resize v n = take n v @ replicate (n - length v) 0"

definition DilithiumWrapper_sign :: "dilithium3_api \<Rightarrow> DilithiumWrapper \<Rightarrow> bytes \<Rightarrow> bytes" where
  "DilithiumWrapper_sign api s message =
     (if \<not> keysGenerated s then []
      else case ref_signature api (replicate SIGNATURE_BYTES 0) message (secretKey s) of
        Throws \<Rightarrow> []
      | Returns (result, signature, signatureLength) \<Rightarrow>
          (if result \<noteq> 0 then [] else resize signature signatureLength))"

definition DilithiumWrapper_verify ::
  "dilithium3_api \<Rightarrow> DilithiumWrapper \<Rightarrow> bytes \<Rightarrow> bytes \<Rightarrow> bool" where
  "DilithiumWrapper_verify api s message signature =
     (if \<not> keysGenerated s then False
      else case ref_verify api signature message (publicKey s) of
        Throws \<Rightarrow> False
      | Returns result \<Rightarrow> result = 0)"

definition getPublicKey :: "DilithiumWrapper \<Rightarrow> bytes" where
  "getPublicKey s = publicKey s"

definition getSecretKey :: "DilithiumWrapper \<Rightarrow> bytes" where
  "getSecretKey s = secretKey s"

definition setPublicKey :: "bytes \<Rightarrow> DilithiumWrapper \<Rightarrow> bool \<times> DilithiumWrapper" where
  "setPublicKey pubkey s =
     (if length pubkey \<noteq> PUBLIC_KEY_BYTES then (False, s)
      else (True, s\<lparr>publicKey := pubkey\<rparr>))"

definition setSecretKey :: "bytes \<Rightarrow> DilithiumWrapper \<Rightarrow> bool \<times> DilithiumWrapper" where
  "setSecretKey seckey s =
     (if length seckey \<noteq> SECRET_KEY_BYTES then (False, s)
      else (True, s\<lparr>secretKey := seckey, keysGenerated := True\<rparr>))"

text \<open>\<open>secureWipe\<close>: the loop \<open>for (i = 0; i < size; ++i) p[i] = 0\<close>.\<close>

fun wipe_from :: "nat \<Rightarrow> nat \<Rightarrow> bytes \<Rightarrow> bytes" where
  "wipe_from 0 i p = p"
| "wipe_from (Suc k) i p = wipe_from k (Suc i) (p[i := 0])"

definition secureWipe :: "bytes \<Rightarrow> bytes" where
  "secureWipe data = (if 0 < length data then wipe_from (length data) 0 data else data)"

text \<open>The destructor wipes the secret key buffer and nothing else.\<close>

definition DilithiumWrapper_destroy :: "DilithiumWrapper \<Rightarrow> DilithiumWrapper" where
  "DilithiumWrapper_destroy s = s\<lparr>secretKey := secureWipe (secretKey s)\<rparr>"

section \<open>The RSA backend: \<open>RSABenchmark\<close>\<close>

text \<open>
  The class holds a key size and three OpenSSL handles, each possibly null.  OpenSSL is
  external: a call into it appears in the model as an entry of the trace that every
  operation returns next to its result, and what OpenSSL answers is an argument of the
  operation (a record of outcomes), so the theorems hold for every answer.
\<close>

type_synonym handle = nat

datatype key_type = EVP_PKEY_RSA | EVP_PKEY_RSA_PSS

datatype rsa_padding =
    RSA_PKCS1_PADDING
  | RSA_NO_PADDING
  | RSA_PKCS1_OAEP_PADDING
  | RSA_X931_PADDING
  | RSA_PKCS1_PSS_PADDING

datatype digest = EVP_sha256

text \<open>
  The OpenSSL entry points the backend calls, with the arguments the source passes.  The
  boolean of \<open>EVP_DigestSignInit\<close> and \<open>EVP_DigestVerifyInit\<close> tells whether the caller
  asked for the \<open>EVP_PKEY_CTX\<close> of the operation (the second argument, null in the source);
  the boolean of \<open>EVP_DigestSign\<close> tells whether a signature buffer was passed (null in the
  length probe).  \<open>EVP_PKEY_CTX_set_rsa_padding\<close> is the call that selects a padding mode.
\<close>

datatype evp_call =
    EVP_PKEY_CTX_new_id key_type
  | EVP_PKEY_keygen_init handle
  | EVP_PKEY_CTX_set_rsa_keygen_bits handle int
  | EVP_PKEY_keygen handle
  | EVP_PKEY_CTX_free handle
  | EVP_PKEY_free handle
  | EVP_MD_CTX_new
  | EVP_MD_CTX_free handle
  | EVP_DigestSignInit handle bool digest handle
  | EVP_DigestSign handle bool bytes
  | EVP_DigestVerifyInit handle bool digest handle
  | EVP_DigestVerify handle bytes bytes
  | EVP_PKEY_CTX_set_rsa_padding handle rsa_padding

record RSABenchmark =
  keySize :: int
  pkey :: "handle option"
  signCtx :: "handle option"
  verifyCtx :: "handle option"

definition RSABenchmark_new :: "int \<Rightarrow> RSABenchmark" where
  "RSABenchmark_new bits = \<lparr>keySize = bits, pkey = None, signCtx = None, verifyCtx = None\<rparr>"

definition RSABenchmark_hasKeys :: "RSABenchmark \<Rightarrow> bool" where
  "RSABenchmark_hasKeys s = (pkey s \<noteq> None)"

definition cleanup :: "RSABenchmark \<Rightarrow> RSABenchmark \<times> evp_call list" where
  "cleanup s =
     (s\<lparr>signCtx := None, verifyCtx := None, pkey := None\<rparr>,
      (case signCtx s of Some c \<Rightarrow> [EVP_PKEY_CTX_free c] | None \<Rightarrow> []) @
      (case verifyCtx s of Some c \<Rightarrow> [EVP_PKEY_CTX_free c] | None \<Rightarrow> []) @
      (case pkey s of Some k \<Rightarrow> [EVP_PKEY_free k] | None \<Rightarrow> []))"

definition RSABenchmark_destroy :: "RSABenchmark \<Rightarrow> RSABenchmark \<times> evp_call list" where
  "RSABenchmark_destroy s = cleanup s"

text \<open>
  What OpenSSL answers during \<open>generateKeys\<close>.  \<open>EVP_PKEY_keygen\<close> is handed the address of
  \<open>pkey_\<close>, which \<open>cleanup\<close> has just set to null: on success it stores the new key there
  (\<open>keygen_pkey\<close>), on failure it leaves the null pointer in place.
\<close>

record keygen_outcomes =
  ctx_new_id_result :: "handle option"
  keygen_init_result :: int
  set_rsa_keygen_bits_result :: int
  keygen_result :: int
  keygen_pkey :: handle

definition RSABenchmark_generateKeys ::
  "keygen_outcomes \<Rightarrow> RSABenchmark \<Rightarrow> bool \<times> RSABenchmark \<times> evp_call list" where
  "RSABenchmark_generateKeys oc s =
     (let (s1, t0) = cleanup s;
          t1 = t0 @ [EVP_PKEY_CTX_new_id EVP_PKEY_RSA]
      in case ctx_new_id_result oc of
           None \<Rightarrow> (False, s1, t1)
         | Some ctx \<Rightarrow>
             (let t2 = t1 @ [EVP_PKEY_keygen_init ctx] in
              if keygen_init_result oc \<le> 0 then (False, s1, t2 @ [EVP_PKEY_CTX_free ctx])
              else
                let t3 = t2 @ [EVP_PKEY_CTX_set_rsa_keygen_bits ctx (keySize s1)] in
                if set_rsa_keygen_bits_result oc \<le> 0
                then (False, s1, t3 @ [EVP_PKEY_CTX_free ctx])
                else
                  let t4 = t3 @ [EVP_PKEY_keygen ctx] in
                  if keygen_result oc \<le> 0 then (False, s1, t4 @ [EVP_PKEY_CTX_free ctx])
                  else (True, s1\<lparr>pkey := Some (keygen_pkey oc)\<rparr>,
                        t4 @ [EVP_PKEY_CTX_free ctx])))"

text \<open>
  What OpenSSL answers during \<open>sign\<close>: the digest context, the return code of the
  initialiser, the return code and length of the length probe, and the return code,
  buffer contents and length of the signing call proper.
\<close>

record sign_outcomes =
  sign_md_ctx :: "handle option"
  sign_init_result :: int
  probe_result :: int
  probe_len :: nat
  sign_result :: int
  sign_buffer :: bytes
  sign_len :: nat

definition RSABenchmark_sign ::
  "sign_outcomes \<Rightarrow> RSABenchmark \<Rightarrow> bytes \<Rightarrow> bytes \<times> evp_call list" where
  "RSABenchmark_sign oc s message =
     (case pkey s of
        None \<Rightarrow> ([], [])
      | Some k \<Rightarrow>
          (case sign_md_ctx oc of
             None \<Rightarrow> ([], [EVP_MD_CTX_new])
           | Some mdctx \<Rightarrow>
               (let t1 = [EVP_MD_CTX_new, EVP_DigestSignInit mdctx False EVP_sha256 k] in
                if sign_init_result oc \<le> 0 then ([], t1 @ [EVP_MD_CTX_free mdctx])
                else
                  let t2 = t1 @ [EVP_DigestSign mdctx False message] in
                  if probe_result oc \<le> 0 then ([], t2 @ [EVP_MD_CTX_free mdctx])
                  else
                    let signature = resize (sign_buffer oc) (probe_len oc);
                        t3 = t2 @ [EVP_DigestSign mdctx True message]
                    in if sign_result oc \<le> 0 then ([], t3 @ [EVP_MD_CTX_free mdctx])
                       else (resize signature (sign_len oc), t3 @ [EVP_MD_CTX_free mdctx]))))"

record verify_outcomes =
  verify_md_ctx :: "handle option"
  verify_init_result :: int
  verify_result :: int

definition RSABenchmark_verify ::
  "verify_outcomes \<Rightarrow> RSABenchmark \<Rightarrow> bytes \<Rightarrow> bytes \<Rightarrow> bool \<times> evp_call list" where
  "RSABenchmark_verify oc s message signature =
     (case pkey s of
        None \<Rightarrow> (False, [])
      | Some k \<Rightarrow>
          (case verify_md_ctx oc of
             None \<Rightarrow> (False, [EVP_MD_CTX_new])
           | Some mdctx \<Rightarrow>
               (let t1 = [EVP_MD_CTX_new, EVP_DigestVerifyInit mdctx False EVP_sha256 k] in
                if verify_init_result oc \<le> 0 then (False, t1 @ [EVP_MD_CTX_free mdctx])
                else (verify_result oc = 1,
                      t1 @ [EVP_DigestVerify mdctx signature message,
                            EVP_MD_CTX_free mdctx]))))"

text \<open>
  The padding mode a signing or verification context ends up with.  OpenSSL starts such a
  context from the default of the key's type (PKCS#1 v1.5 for a key made under
  \<open>EVP_PKEY_RSA\<close>, PSS for one made under \<open>EVP_PKEY_RSA_PSS\<close>), and only
  \<open>EVP_PKEY_CTX_set_rsa_padding\<close> changes it.
\<close>

definition default_padding :: "key_type \<Rightarrow> rsa_padding" where
  "default_padding t = (case t of EVP_PKEY_RSA \<Rightarrow> RSA_PKCS1_PADDING
                                | EVP_PKEY_RSA_PSS \<Rightarrow> RSA_PKCS1_PSS_PADDING)"

fun padding_after :: "rsa_padding \<Rightarrow> evp_call list \<Rightarrow> rsa_padding" where
  "padding_after p [] = p"
| "padding_after p (EVP_PKEY_CTX_set_rsa_padding c q # cs) = padding_after q cs"
| "padding_after p (c # cs) = padding_after p cs"

fun keygen_types :: "evp_call list \<Rightarrow> key_type list" where
  "keygen_types [] = []"
| "keygen_types (EVP_PKEY_CTX_new_id t # cs) = t # keygen_types cs"
| "keygen_types (c # cs) = keygen_types cs"

section \<open>The benchmark runner: \<open>Benchmark\<close>\<close>

subsection \<open>Double arithmetic\<close>

text \<open>
  A finite \<open>double\<close> is a real number, and an arithmetic operation on doubles returns the
  exact result rounded to a double.  The rounding is a parameter \<open>rnd\<close> of every function
  that computes with doubles.  Two instances are used: \<open>binary64\<close>, round to nearest with
  ties to even at 53 significant bits (IEEE 754, the arithmetic of the compiled code), and
  the identity, which is arithmetic without rounding error.  \<open>binary64\<close> has no exponent
  bounds: it is the machine's rounding wherever the result is a normal number, and infinities
  and NaN are outside the model.  The samples of \<open>run\<close> are quotients of 64-bit counts by
  1000, and their sums, differences and squares stay in the normal range.
\<close>

definition pow2 :: "int \<Rightarrow> real" where
  "pow2 i = (if 0 \<le> i then 2 ^ nat i else 1 / 2 ^ nat (- i))"

definition round_half_even :: "real \<Rightarrow> int" where
  "round_half_even y =
     (let f = \<lfloor>y\<rfloor>; d = y - of_int f
      in if d < 1 / 2 then f else if 1 / 2 < d then f + 1 else if even f then f else f + 1)"

text \<open>\<open>binade k x\<close> is the exponent \<open>e\<close> with \<open>2^e \<le> x < 2^(e+1)\<close>, found in at most \<open>k\<close> scalings.\<close>

fun binade :: "nat \<Rightarrow> real \<Rightarrow> int" where
  "binade 0 x = 0"
| "binade (Suc k) x =
     (if 2 \<le> x then binade k (x / 2) + 1
      else if x < 1 then binade k (2 * x) - 1
      else 0)"

definition binary64 :: "real \<Rightarrow> real" where
  "binary64 x =
     (if x = 0 then 0
      else let u = pow2 (binade 1100 \<bar>x\<bar> - 52)
           in sgn x * (of_int (round_half_even (\<bar>x\<bar> / u)) * u))"

definition fadd :: "(real \<Rightarrow> real) \<Rightarrow> real \<Rightarrow> real \<Rightarrow> real" where
  "fadd rnd x y = rnd (x + y)"

definition fsub :: "(real \<Rightarrow> real) \<Rightarrow> real \<Rightarrow> real \<Rightarrow> real" where
  "fsub rnd x y = rnd (x - y)"

definition fmul :: "(real \<Rightarrow> real) \<Rightarrow> real \<Rightarrow> real \<Rightarrow> real" where
  "fmul rnd x y = rnd (x * y)"

definition fdiv :: "(real \<Rightarrow> real) \<Rightarrow> real \<Rightarrow> real \<Rightarrow> real" where
  "fdiv rnd x y = rnd (x / y)"

definition fsqrt :: "(real \<Rightarrow> real) \<Rightarrow> real \<Rightarrow> real" where
  "fsqrt rnd x = rnd (sqrt x)"

text \<open>The implicit conversions of a \<open>long long\<close> count and of a \<open>size_t\<close> to \<open>double\<close>.\<close>

definition double_of_int :: "(real \<Rightarrow> real) \<Rightarrow> int \<Rightarrow> real" where
  "double_of_int rnd c = rnd (of_int c)"

definition double_of_size :: "(real \<Rightarrow> real) \<Rightarrow> nat \<Rightarrow> real" where
  "double_of_size rnd n = rnd (of_nat n)"

subsection \<open>The clock\<close>

text \<open>
  \<open>std::chrono::high_resolution_clock\<close> belongs to the standard library.  Its tick period
  (a \<open>std::ratio\<close> of seconds, \<open>1/1000000000\<close> in libstdc++ and libc++) is the record
  \<open>clock\<close>; the readings are an oracle \<open>now\<close>, where \<open>now k\<close> is the tick count that the
  \<open>k\<close>-th call of \<open>now()\<close> returns.  \<open>duration_cast\<close> multiplies by the reduced conversion
  factor in integer arithmetic, and integer division truncates toward zero.  Tick counts are
  unbounded integers here; the 64-bit range of the library's representation is not modelled.
\<close>

record clock =
  period_num :: int
  period_den :: int

definition nanosecond_clock :: clock where
  "nanosecond_clock = \<lparr>period_num = 1, period_den = 1000000000\<rparr>"

definition duration_cast_microseconds :: "clock \<Rightarrow> int \<Rightarrow> int" where
  "duration_cast_microseconds c d =
     (let n = period_num c * 1000000;
          g = gcd n (period_den c)
      in (d * (n div g)) sdiv (period_den c div g))"

subsection \<open>\<open>Benchmark::run\<close>\<close>

record Result =
  averageTime :: real
  minTime :: real
  maxTime :: real
  stdDev :: real
  iterations :: nat

text \<open>One pass of the loop body: two readings, the cast, the division by \<open>1000.0\<close>.\<close>

definition sample :: "(real \<Rightarrow> real) \<Rightarrow> clock \<Rightarrow> int \<Rightarrow> int \<Rightarrow> real" where
  "sample rnd c start end =
     fdiv rnd (double_of_int rnd (duration_cast_microseconds c (end - start))) 1000"

text \<open>The loop \<open>for (i = 0; i < iterations; ++i)\<close>, with the iterations still to run.\<close>

fun gather :: "(real \<Rightarrow> real) \<Rightarrow> clock \<Rightarrow> (nat \<Rightarrow> int) \<Rightarrow> nat \<Rightarrow> nat \<Rightarrow> real list \<Rightarrow> real list" where
  "gather rnd c now 0 i ts = ts"
| "gather rnd c now (Suc k) i ts =
     gather rnd c now k (Suc i) (ts @ [sample rnd c (now (2 * i)) (now (2 * i + 1))])"

text \<open>\<open>std::min_element\<close> and \<open>std::max_element\<close>, dereferenced; no element on an empty range.\<close>

fun min_element :: "real list \<Rightarrow> real option" where
  "min_element [] = None"
| "min_element (x # xs) = Some (foldl (\<lambda>smallest v. if v < smallest then v else smallest) x xs)"

fun max_element :: "real list \<Rightarrow> real option" where
  "max_element [] = None"
| "max_element (x # xs) = Some (foldl (\<lambda>largest v. if largest < v then v else largest) x xs)"

definition calculateStdDev :: "(real \<Rightarrow> real) \<Rightarrow> real list \<Rightarrow> real \<Rightarrow> real" where
  "calculateStdDev rnd values mean =
     (let sumSquaredDiff =
            foldl (\<lambda>acc v. let diff = fsub rnd v mean in fadd rnd acc (fmul rnd diff diff))
                  0 values
      in fsqrt rnd (fdiv rnd sumSquaredDiff (double_of_size rnd (length values))))"

text \<open>
  \<open>run\<close> returns no \<open>Result\<close> for zero iterations: the source then dereferences the end
  iterator of an empty vector.  The vector \<open>times\<close> of the source is \<open>ts\<close> here.
\<close>

definition run :: "(real \<Rightarrow> real) \<Rightarrow> clock \<Rightarrow> (nat \<Rightarrow> int) \<Rightarrow> nat \<Rightarrow> Result option" where
  "run rnd c now n =
     (let ts = gather rnd c now n 0 [];
          sum = foldl (fadd rnd) 0 ts;
          mean = fdiv rnd sum (double_of_size rnd (length ts))
      in case (min_element ts, max_element ts) of
           (Some minT, Some maxT) \<Rightarrow>
             Some \<lparr>averageTime = mean, minTime = minT, maxTime = maxT,
                   stdDev = calculateStdDev rnd ts mean, iterations = n\<rparr>
         | _ \<Rightarrow> None)"

text \<open>
  The population standard deviation in the words of the specification:
  \<open>sqrt(\<Sum>(x\<^sub>i - mean)\<^sup>2 / n)\<close>, with the mean \<open>\<Sum>x\<^sub>i / n\<close>.
\<close>

definition population_mean :: "real list \<Rightarrow> real" where
  "population_mean xs = sum_list xs / real (length xs)"

definition population_std_dev :: "real list \<Rightarrow> real" where
  "population_std_dev xs =
     sqrt ((\<Sum>x\<leftarrow>xs. (x - population_mean xs)\<^sup>2) / real (length xs))"

text \<open>
  The same formula evaluated in double arithmetic around a given mean: every subtraction,
  product, addition (from the left), the division by \<open>n\<close> and the square root rounded.
\<close>

definition rounded_std_dev :: "(real \<Rightarrow> real) \<Rightarrow> real list \<Rightarrow> real \<Rightarrow> real" where
  "rounded_std_dev rnd xs mean =
     fsqrt rnd (fdiv rnd
       (foldl (fadd rnd) 0 (map (\<lambda>x. fmul rnd (fsub rnd x mean) (fsub rnd x mean)) xs))
       (double_of_size rnd (length xs)))"

section \<open>The speed comparison of the detailed analysis (\<open>main.cpp\<close>)\<close>

text \<open>
  The nine \<open>Result\<close> locals of \<open>runComprehensiveBenchmark\<close> that the block reads, and the
  seven output statements of the block, one string each.  Printing a \<open>double\<close> with
  \<open>std::fixed\<close> and \<open>std::setprecision(2)\<close> is the stream library's work and enters as the
  parameter \<open>show2\<close>; its argument is \<open>None\<close> when the divisor is zero and the quotient is
  not a finite number.
\<close>

record measurements =
  dilithiumKeyGen :: Result
  dilithiumSign :: Result
  dilithiumVerify :: Result
  rsa2048KeyGen :: Result
  rsa2048Sign :: Result
  rsa2048Verify :: Result
  rsa3072KeyGen :: Result
  rsa3072Sign :: Result
  rsa3072Verify :: Result

definition newline :: string where
  "newline = [CHR 0x0A]"

definition quotient :: "(real \<Rightarrow> real) \<Rightarrow> real \<Rightarrow> real \<Rightarrow> real option" where
  "quotient rnd a b = (if b = 0 then None else Some (fdiv rnd a b))"

definition speed_comparison ::
  "(real \<Rightarrow> real) \<Rightarrow> (real option \<Rightarrow> string) \<Rightarrow> measurements \<Rightarrow> string list" where
  "speed_comparison rnd show2 m =
     [''Speed Comparison (vs Dilithium3):'' @ newline,
      ''  RSA-2048 KeyGen: ''
        @ show2 (quotient rnd (averageTime (rsa2048KeyGen m)) (averageTime (dilithiumKeyGen m)))
        @ ''x slower'' @ newline,
      ''  RSA-3072 KeyGen: ''
        @ show2 (quotient rnd (averageTime (rsa3072KeyGen m)) (averageTime (dilithiumKeyGen m)))
        @ ''x slower'' @ newline @ newline,
      ''  RSA-2048 Signing: ''
        @ show2 (quotient rnd (averageTime (rsa2048Sign m)) (averageTime (dilithiumSign m)))
        @ ''x ''
        @ (if averageTime (rsa2048Sign m) > averageTime (dilithiumSign m)
           then ''slower'' else ''faster'')
        @ newline,
      ''  RSA-3072 Signing: ''
        @ show2 (quotient rnd (averageTime (rsa3072Sign m)) (averageTime (dilithiumSign m)))
        @ ''x ''
        @ (if averageTime (rsa3072Sign m) > averageTime (dilithiumSign m)
           then ''slower'' else ''faster'')
        @ newline @ newline,
      ''  RSA-2048 Verification: ''
        @ show2 (quotient rnd (averageTime (rsa2048Verify m)) (averageTime (dilithiumVerify m)))
        @ ''x ''
        @ (if averageTime (rsa2048Verify m) > averageTime (dilithiumVerify m)
           then ''slower'' else ''faster'')
        @ newline,
      ''  RSA-3072 Verification: ''
        @ show2 (quotient rnd (averageTime (rsa3072Verify m)) (averageTime (dilithiumVerify m)))
        @ ''x ''
        @ (if averageTime (rsa3072Verify m) > averageTime (dilithiumVerify m)
           then ''slower'' else ''faster'')
        @ newline @ newline]"

section \<open>Concrete inputs\<close>

text \<open>
  Stand-ins for the external routines and sample answers of OpenSSL, for the concrete checks.
  \<open>echo_api\<close> leaves the key buffers as it finds them; \<open>fresh_key_api\<close> fills both key
  buffers with a new key, as the linked keypair routine does.
\<close>

definition echo_api :: dilithium3_api where
  "echo_api =
     \<lparr>ref_keypair = (\<lambda>pk sk. Returns (0, pk, sk)),
      ref_signature = (\<lambda>buf m sk. Returns (0, m, length m)),
      ref_verify = (\<lambda>sg m pk. Returns (if sg = m then 0 else - 1))\<rparr>"

definition all_succeed_sign :: sign_outcomes where
  "all_succeed_sign =
     \<lparr>sign_md_ctx = Some 1, sign_init_result = 1, probe_result = 1, probe_len = 2,
      sign_result = 1, sign_buffer = [7, 9], sign_len = 2\<rparr>"

definition all_succeed_verify :: verify_outcomes where
  "all_succeed_verify = \<lparr>verify_md_ctx = Some 1, verify_init_result = 1, verify_result = 1\<rparr>"

definition keyed_rsa :: RSABenchmark where
  "keyed_rsa = \<lparr>keySize = 2048, pkey = Some 5, signCtx = Some 6, verifyCtx = None\<rparr>"

definition keygen_fails :: keygen_outcomes where
  "keygen_fails =
     \<lparr>ctx_new_id_result = Some 8, keygen_init_result = 1, set_rsa_keygen_bits_result = 1,
      keygen_result = 0, keygen_pkey = 9\<rparr>"




text \<open>
  Clock oracles on a nanosecond clock.  With \<open>ramp_clock\<close> the three timed operations take
  1 ms, 2 ms and 3 ms (readings 0, 1, 1, 3, 3, 6 ms); with \<open>steady_clock d\<close> every reading
  comes \<open>d\<close> microseconds after the previous one.
\<close>

definition ramp_clock :: "nat \<Rightarrow> int" where
  "ramp_clock k = 500000 * int ((k + 1) div 2) * (int ((k + 1) div 2) + 1)"

definition steady_clock :: "int \<Rightarrow> nat \<Rightarrow> int" where
  "steady_clock d k = 1000 * d * int k"

definition unit_result :: "real \<Rightarrow> Result" where
  "unit_result t = \<lparr>averageTime = t, minTime = t, maxTime = t, stdDev = 0, iterations = 10\<rparr>"

definition keygen_faster :: measurements where
  "keygen_faster =
     \<lparr>dilithiumKeyGen = unit_result 2, dilithiumSign = unit_result 1,
      dilithiumVerify = unit_result 1,
      rsa2048KeyGen = unit_result 1, rsa2048Sign = unit_result 3, rsa2048Verify = unit_result (1 / 2),
      rsa3072KeyGen = unit_result (3 / 2), rsa3072Sign = unit_result 5,
      rsa3072Verify = unit_result (3 / 4)\<rparr>"

section \<open>Properties of the lattice backend\<close>

text \<open>
  Claim C5.  A buffer whose length differs from 1952 is rejected by \<open>setPublicKey\<close>, and
  one whose length differs from 4032 by \<open>setSecretKey\<close>: the call returns false and the
  whole object (public key, secret key and the \<open>hasKeys\<close> flag) is what it was.
\<close>

theorem setters_reject_wrong_size:
  "(length b \<noteq> 1952 \<longrightarrow> setPublicKey b s = (False, s)) \<and>
   (length b \<noteq> 4032 \<longrightarrow> setSecretKey b s = (False, s))"
  by (simp add: setPublicKey_def setSecretKey_def PUBLIC_KEY_BYTES_def SECRET_KEY_BYTES_def)

theorem setters_reject_wrong_size_witness:
  "length [1, 2, 3 :: byte] \<noteq> 1952 \<and> length [1, 2, 3 :: byte] \<noteq> 4032 \<and>
   setPublicKey [1, 2, 3] DilithiumWrapper_new = (False, DilithiumWrapper_new) \<and>
   setSecretKey [1, 2, 3] DilithiumWrapper_new = (False, DilithiumWrapper_new)"
  using setters_reject_wrong_size [of "[1, 2, 3]" DilithiumWrapper_new] by simp

text \<open>The wiping loop zeroes exactly the bytes it walks over.\<close>

lemma wipe_from_eq:
  "i + k \<le> length p \<Longrightarrow> wipe_from k i p = take i p @ replicate k 0 @ drop (i + k) p"
proof (induction k arbitrary: i p)
  case 0
  then show ?case by simp
next
  case (Suc k)
  have "wipe_from (Suc k) i p = wipe_from k (Suc i) (p[i := 0])" by simp
  also have "\<dots> = take (Suc i) (p[i := 0]) @ replicate k 0 @ drop (Suc i + k) (p[i := 0])"
    using Suc.prems by (intro Suc.IH) simp
  also have "take (Suc i) (p[i := 0]) = take i p @ [0]"
    using Suc.prems by (simp add: take_Suc_conv_app_nth)
  also have "drop (Suc i + k) (p[i := 0]) = drop (i + Suc k) p"
    by simp
  finally show ?case by (simp add: replicate_app_Cons_same)
qed

lemma secureWipe_zero: "secureWipe d = replicate (length d) 0"
  by (cases "d = []") (simp_all add: secureWipe_def wipe_from_eq)

text \<open>
  Claim C6.  On a backend without keys, \<open>sign\<close> returns the empty sequence and \<open>verify\<close>
  returns false, for every message and every signature, whatever the external routines
  would answer; a freshly constructed backend of either kind (any modulus size) has no keys.
\<close>

theorem no_keys_no_signature:
  "(\<not> DilithiumWrapper_hasKeys s \<longrightarrow>
      DilithiumWrapper_sign api s m = [] \<and> \<not> DilithiumWrapper_verify api s m sg) \<and>
   (\<not> RSABenchmark_hasKeys r \<longrightarrow>
      fst (RSABenchmark_sign so r m) = [] \<and> \<not> fst (RSABenchmark_verify vo r m sg)) \<and>
   \<not> DilithiumWrapper_hasKeys DilithiumWrapper_new \<and>
   \<not> RSABenchmark_hasKeys (RSABenchmark_new bits)"
  by (simp add: DilithiumWrapper_hasKeys_def DilithiumWrapper_sign_def
      DilithiumWrapper_verify_def RSABenchmark_hasKeys_def RSABenchmark_sign_def
      RSABenchmark_verify_def DilithiumWrapper_new_def RSABenchmark_new_def)

theorem no_keys_no_signature_witness:
  "\<not> DilithiumWrapper_hasKeys DilithiumWrapper_new \<and>
   DilithiumWrapper_sign echo_api DilithiumWrapper_new [1, 2] = [] \<and>
   \<not> DilithiumWrapper_verify echo_api DilithiumWrapper_new [1, 2] [1, 2] \<and>
   \<not> RSABenchmark_hasKeys (RSABenchmark_new 2048) \<and>
   fst (RSABenchmark_sign all_succeed_sign (RSABenchmark_new 2048) [1, 2]) = [] \<and>
   \<not> fst (RSABenchmark_verify all_succeed_verify (RSABenchmark_new 2048) [1, 2] [7, 9])"
  using no_keys_no_signature [of DilithiumWrapper_new echo_api "[1, 2]" "[1, 2]"
      "RSABenchmark_new 2048" all_succeed_sign all_succeed_verify 2048]
    no_keys_no_signature [of DilithiumWrapper_new echo_api "[1, 2]" "[7, 9]"
      "RSABenchmark_new 2048" all_succeed_sign all_succeed_verify 2048]
  by simp

text \<open>
  Claim C9.  Importing a 4032-byte secret key succeeds and sets \<open>hasKeys\<close>, also on a
  wrapper that never generated keys, and leaves the public key alone: on a fresh wrapper
  the public key is still the constructor's 1952 zero bytes.  Importing a 1952-byte public
  key succeeds and leaves \<open>hasKeys\<close> as it was.  So \<open>hasKeys\<close> does not tell that the two
  stored keys belong together.
\<close>

theorem secret_key_import_sets_hasKeys:
  "(length sk = 4032 \<longrightarrow>
      setSecretKey sk s = (True, s\<lparr>secretKey := sk, keysGenerated := True\<rparr>) \<and>
      DilithiumWrapper_hasKeys (snd (setSecretKey sk s)) \<and>
      publicKey (snd (setSecretKey sk s)) = publicKey s \<and>
      DilithiumWrapper_hasKeys (snd (setSecretKey sk DilithiumWrapper_new)) \<and>
      publicKey (snd (setSecretKey sk DilithiumWrapper_new)) = replicate 1952 0) \<and>
   (length pk = 1952 \<longrightarrow>
      setPublicKey pk s = (True, s\<lparr>publicKey := pk\<rparr>) \<and>
      DilithiumWrapper_hasKeys (snd (setPublicKey pk s)) = DilithiumWrapper_hasKeys s)"
  by (simp add: setSecretKey_def setPublicKey_def DilithiumWrapper_hasKeys_def
      DilithiumWrapper_new_def PUBLIC_KEY_BYTES_def SECRET_KEY_BYTES_def)

theorem secret_key_import_sets_hasKeys_witness:
  "length (replicate 4032 (1 :: byte)) = 4032 \<and> length (replicate 1952 (2 :: byte)) = 1952 \<and>
   \<not> DilithiumWrapper_hasKeys DilithiumWrapper_new \<and>
   DilithiumWrapper_hasKeys (snd (setSecretKey (replicate 4032 1) DilithiumWrapper_new)) \<and>
   publicKey (snd (setSecretKey (replicate 4032 1) DilithiumWrapper_new)) = replicate 1952 0 \<and>
   \<not> DilithiumWrapper_hasKeys (snd (setPublicKey (replicate 1952 2) DilithiumWrapper_new))"
  using secret_key_import_sets_hasKeys
    [of "replicate 4032 1" DilithiumWrapper_new "replicate 1952 2"]
  by (simp add: DilithiumWrapper_hasKeys_def DilithiumWrapper_new_def setPublicKey_def
      PUBLIC_KEY_BYTES_def)

section \<open>Properties of the RSA backend\<close>

text \<open>
  \<open>cleanup\<close> nulls the three handles and creates no key generation context.
\<close>

lemma cleanup_simps:
  "fst (cleanup s) = s\<lparr>signCtx := None, verifyCtx := None, pkey := None\<rparr>"
  "keygen_types (snd (cleanup s)) = []"
  by (auto simp: cleanup_def split: option.splits)

text \<open>
  Claim C10.  \<open>RSABenchmark::generateKeys\<close> fails exactly when one of its four OpenSSL calls
  fails, and after a failure at any stage the backend has no keys, whatever it held before.
  The trace starts with the calls of \<open>cleanup\<close>, which free the signing context, the
  verification context and the key that were held, and only then creates the key generation
  context: the previous keypair is gone before generation is attempted.
\<close>

theorem failed_generateKeys_leaves_no_keys:
  "(\<not> fst (RSABenchmark_generateKeys oc s) \<longleftrightarrow>
      ctx_new_id_result oc = None \<or> keygen_init_result oc \<le> 0 \<or>
      set_rsa_keygen_bits_result oc \<le> 0 \<or> keygen_result oc \<le> 0) \<and>
   (\<not> fst (RSABenchmark_generateKeys oc s) \<longrightarrow>
      \<not> RSABenchmark_hasKeys (fst (snd (RSABenchmark_generateKeys oc s)))) \<and>
   take (length (snd (cleanup s)) + 1) (snd (snd (RSABenchmark_generateKeys oc s))) =
     snd (cleanup s) @ [EVP_PKEY_CTX_new_id EVP_PKEY_RSA] \<and>
   (pkey s = Some k \<longrightarrow> EVP_PKEY_free k \<in> set (snd (cleanup s))) \<and>
   (signCtx s = Some c \<longrightarrow> EVP_PKEY_CTX_free c \<in> set (snd (cleanup s))) \<and>
   (verifyCtx s = Some c \<longrightarrow> EVP_PKEY_CTX_free c \<in> set (snd (cleanup s)))"
  by (auto simp: RSABenchmark_generateKeys_def RSABenchmark_hasKeys_def cleanup_def Let_def
      split: option.splits prod.splits)

theorem failed_generateKeys_leaves_no_keys_witness:
  "RSABenchmark_hasKeys keyed_rsa \<and> pkey keyed_rsa = Some 5 \<and> signCtx keyed_rsa = Some 6 \<and>
   \<not> fst (RSABenchmark_generateKeys keygen_fails keyed_rsa) \<and>
   \<not> RSABenchmark_hasKeys (fst (snd (RSABenchmark_generateKeys keygen_fails keyed_rsa))) \<and>
   EVP_PKEY_free 5 \<in> set (snd (cleanup keyed_rsa)) \<and>
   EVP_PKEY_CTX_free 6 \<in> set (snd (cleanup keyed_rsa))"
  using failed_generateKeys_leaves_no_keys [of keygen_fails keyed_rsa 5 6]
  by (simp add: keygen_fails_def keyed_rsa_def RSABenchmark_hasKeys_def)

text \<open>
  Claim C4.  Neither \<open>sign\<close> nor \<open>verify\<close> selects a padding mode: both pass a null pointer
  where OpenSSL would hand out the \<open>EVP_PKEY_CTX\<close> of the operation, and no trace contains
  \<open>EVP_PKEY_CTX_set_rsa_padding\<close>.  The key comes from a context created under
  \<open>EVP_PKEY_RSA\<close>, so the padding in effect is that key type's default, PKCS#1 v1.5, and
  not PSS.  The last two conjuncts are the complete traces of a successful \<open>sign\<close> and
  \<open>verify\<close>.
\<close>

theorem sign_verify_padding_is_pkcs1:
  "padding_after (default_padding EVP_PKEY_RSA) (snd (RSABenchmark_sign so s m))
     = RSA_PKCS1_PADDING \<and>
   padding_after (default_padding EVP_PKEY_RSA) (snd (RSABenchmark_verify vo s m sg))
     = RSA_PKCS1_PADDING \<and>
   keygen_types (snd (snd (RSABenchmark_generateKeys ko s))) = [EVP_PKEY_RSA] \<and>
   RSA_PKCS1_PADDING \<noteq> RSA_PKCS1_PSS_PADDING \<and>
   snd (RSABenchmark_sign all_succeed_sign keyed_rsa [1, 2]) =
     [EVP_MD_CTX_new, EVP_DigestSignInit 1 False EVP_sha256 5,
      EVP_DigestSign 1 False [1, 2], EVP_DigestSign 1 True [1, 2], EVP_MD_CTX_free 1] \<and>
   snd (RSABenchmark_verify all_succeed_verify keyed_rsa [1, 2] [7, 9]) =
     [EVP_MD_CTX_new, EVP_DigestVerifyInit 1 False EVP_sha256 5,
      EVP_DigestVerify 1 [7, 9] [1, 2], EVP_MD_CTX_free 1]"
  by (auto simp: RSABenchmark_sign_def RSABenchmark_verify_def RSABenchmark_generateKeys_def
      default_padding_def Let_def cleanup_def all_succeed_sign_def all_succeed_verify_def
      keyed_rsa_def
      split: option.splits prod.splits)



section \<open>Properties of the speed comparison\<close>

text \<open>
  Claim C3.  The two key generation lines end in the fixed text \<open>x slower\<close> for every
  set of measurements.  With RSA key generation averages of 1 ms and 1.5 ms against 2 ms for
  Dilithium the ratios are 0.5 and 0.75, the RSA averages do not exceed the Dilithium one,
  and both lines still say \<open>slower\<close>.
\<close>

theorem keygen_ratio_always_slower:
  "speed_comparison rnd show2 m ! 1 =
     ''  RSA-2048 KeyGen: ''
       @ show2 (quotient rnd (averageTime (rsa2048KeyGen m)) (averageTime (dilithiumKeyGen m)))
       @ ''x slower'' @ newline \<and>
   speed_comparison rnd show2 m ! 2 =
     ''  RSA-3072 KeyGen: ''
       @ show2 (quotient rnd (averageTime (rsa3072KeyGen m)) (averageTime (dilithiumKeyGen m)))
       @ ''x slower'' @ newline @ newline \<and>
   speed_comparison rnd show2 keygen_faster ! 1 =
     ''  RSA-2048 KeyGen: '' @ show2 (Some (rnd (1 / 2))) @ ''x slower'' @ newline \<and>
   speed_comparison rnd show2 keygen_faster ! 2 =
     ''  RSA-3072 KeyGen: '' @ show2 (Some (rnd (3 / 4))) @ ''x slower'' @ newline @ newline \<and>
   \<not> averageTime (rsa2048KeyGen keygen_faster) > averageTime (dilithiumKeyGen keygen_faster) \<and>
   \<not> averageTime (rsa3072KeyGen keygen_faster) > averageTime (dilithiumKeyGen keygen_faster)"
  by (simp add: speed_comparison_def keygen_faster_def unit_result_def quotient_def fdiv_def)

text \<open>The signing and verification lines do choose the word by comparing the two averages.\<close>

lemma sign_verify_ratio_annotated:
  "speed_comparison rnd show2 m ! 3 =
     ''  RSA-2048 Signing: ''
       @ show2 (quotient rnd (averageTime (rsa2048Sign m)) (averageTime (dilithiumSign m)))
       @ ''x '' @ (if averageTime (rsa2048Sign m) > averageTime (dilithiumSign m)
                   then ''slower'' else ''faster'') @ newline"
  "speed_comparison rnd show2 m ! 4 =
     ''  RSA-3072 Signing: ''
       @ show2 (quotient rnd (averageTime (rsa3072Sign m)) (averageTime (dilithiumSign m)))
       @ ''x '' @ (if averageTime (rsa3072Sign m) > averageTime (dilithiumSign m)
                   then ''slower'' else ''faster'') @ newline @ newline"
  "speed_comparison rnd show2 m ! 5 =
     ''  RSA-2048 Verification: ''
       @ show2 (quotient rnd (averageTime (rsa2048Verify m)) (averageTime (dilithiumVerify m)))
       @ ''x '' @ (if averageTime (rsa2048Verify m) > averageTime (dilithiumVerify m)
                   then ''slower'' else ''faster'') @ newline"
  "speed_comparison rnd show2 m ! 6 =
     ''  RSA-3072 Verification: ''
       @ show2 (quotient rnd (averageTime (rsa3072Verify m)) (averageTime (dilithiumVerify m)))
       @ ''x '' @ (if averageTime (rsa3072Verify m) > averageTime (dilithiumVerify m)
                   then ''slower'' else ''faster'') @ newline @ newline"
  by (simp_all add: speed_comparison_def)

section \<open>Properties of the double arithmetic\<close>

text \<open>Powers of two.\<close>

lemma pow2_pos: "0 < pow2 i"
  by (simp add: pow2_def)

lemma pow2_powi: "pow2 i = 2 powi i"
  by (simp add: pow2_def power_int_def field_simps)

lemma pow2_add: "pow2 (i + j) = pow2 i * pow2 j"
  by (simp add: pow2_powi power_int_add)

lemma pow2_Suc: "pow2 (i + 1) = 2 * pow2 i"
  by (simp add: pow2_add) (simp add: pow2_def)

lemma pow2_pred: "pow2 (i - 1) = pow2 i / 2"
  using pow2_Suc [of "i - 1"] by simp

lemma pow2_mono: "i \<le> j \<Longrightarrow> pow2 i \<le> pow2 j"
  by (simp add: pow2_powi power_int_increasing)

lemma pow2_less_cancel: "pow2 i < pow2 j \<Longrightarrow> i < j"
  using pow2_mono [of j i] by (cases "i < j") auto

lemma pow2_neg: "pow2 (- int d) = 1 / 2 ^ d"
  by (simp add: pow2_def)

text \<open>
  With enough scalings left, \<open>binade\<close> brackets its argument between two neighbouring
  powers of two.
\<close>

lemma binade_lower:
  "pow2 (- int k) \<le> x \<Longrightarrow> pow2 (binade k x) \<le> x"
proof (induction k arbitrary: x)
  case 0
  then show ?case by simp
next
  case (Suc k)
  consider "2 \<le> x" | "x < 1" | "1 \<le> x" "x < 2" by linarith
  then show ?case
  proof cases
    case 1
    have "pow2 (- int k) \<le> pow2 0" by (rule pow2_mono) simp
    also have "\<dots> \<le> x / 2" using 1 by (simp add: pow2_def)
    finally have "pow2 (binade k (x / 2)) \<le> x / 2" by (rule Suc.IH)
    with 1 show ?thesis by (simp add: pow2_Suc)
  next
    case 2
    have "pow2 (- int k) = 2 * pow2 (- int (Suc k))"
      using pow2_Suc [of "- int (Suc k)"] by simp
    with Suc.prems have "pow2 (- int k) \<le> 2 * x" by simp
    then have "pow2 (binade k (2 * x)) \<le> 2 * x" by (rule Suc.IH)
    with 2 show ?thesis by (simp add: pow2_pred)
  next
    case 3
    then show ?thesis by (simp add: pow2_def)
  qed
qed

lemma binade_nonneg: "1 \<le> x \<Longrightarrow> 0 \<le> binade k x"
proof (induction k arbitrary: x)
  case 0
  then show ?case by simp
next
  case (Suc k)
  then show ?case by (cases "2 \<le> x") simp_all
qed

lemma binade_half: "1 / 2 \<le> x \<Longrightarrow> x < 1 \<Longrightarrow> binade (Suc (Suc k)) x = - 1"
  by simp

lemma binade_numeral:
  "binade (numeral n) x =
     (if 2 \<le> x then binade (pred_numeral n) (x / 2) + 1
      else if x < 1 then binade (pred_numeral n) (2 * x) - 1
      else 0)"
  by (simp add: numeral_eq_Suc)

text \<open>Rounding to the nearest integer.\<close>

lemma round_half_even_nonneg: "0 \<le> y \<Longrightarrow> 0 \<le> round_half_even y"
  by (simp add: round_half_even_def Let_def)

lemma round_half_even_of_int: "round_half_even (of_int k) = k"
  by (simp add: round_half_even_def)

lemma round_half_even_ge: "of_int k \<le> y \<Longrightarrow> k \<le> round_half_even y"
proof -
  assume "of_int k \<le> y"
  then have "k \<le> \<lfloor>y\<rfloor>" by (simp add: le_floor_iff)
  then show ?thesis by (simp add: round_half_even_def Let_def)
qed

lemma round_half_even_unique:
  assumes "of_int m - 1 / 2 < y" "y < of_int m + 1 / 2"
  shows "round_half_even y = m"
proof (cases "of_int m \<le> y")
  case True
  with assms have "\<lfloor>y\<rfloor> = m" by (intro floor_unique) simp_all
  with assms show ?thesis by (simp add: round_half_even_def Let_def)
next
  case False
  with assms have "\<lfloor>y\<rfloor> = m - 1" by (intro floor_unique) simp_all
  with assms False show ?thesis by (simp add: round_half_even_def Let_def)
qed

text \<open>
  \<open>binary64\<close> keeps the sign, keeps zero, is odd, does not fall below the power of two under
  its argument, and returns every integer below \<open>2\<^sup>5\<^sup>3\<close> unchanged.
\<close>

lemma binary64_nonneg: "0 \<le> x \<Longrightarrow> 0 \<le> binary64 x"
  using pow2_pos [of "binade 1100 \<bar>x\<bar> - 52"]
  by (auto simp: binary64_def Let_def intro!: mult_nonneg_nonneg round_half_even_nonneg)

lemma binary64_0: "binary64 0 = 0"
  by (simp add: binary64_def)

lemma binary64_minus: "binary64 (- x) = - binary64 x"
  by (simp add: binary64_def Let_def sgn_minus)

lemma binary64_pos_unfold:
  "0 < x \<Longrightarrow> binary64 x =
     of_int (round_half_even (x / pow2 (binade 1100 x - 52))) * pow2 (binade 1100 x - 52)"
  by (simp add: binary64_def Let_def)

lemma binary64_ge_pow2:
  assumes "pow2 (- 1100) \<le> x"
  shows "pow2 (binade 1100 x) \<le> binary64 x"
proof -
  let ?e = "binade 1100 x"
  let ?u = "pow2 (?e - 52)"
  have x: "0 < x" using assms pow2_pos [of "- 1100"] by linarith
  have u: "0 < ?u" by (rule pow2_pos)
  have lo: "pow2 ?e \<le> x" using binade_lower [of 1100 x] assms by simp
  have e: "pow2 ?e = 2 ^ 52 * ?u"
    using pow2_add [of 52 "?e - 52"] by (simp add: pow2_def)
  have "of_int (2 ^ 52) \<le> x / ?u"
    using lo u by (simp add: e pos_le_divide_eq)
  then have "2 ^ 52 \<le> round_half_even (x / ?u)" by (rule round_half_even_ge)
  then have "(2 ^ 52 :: real) \<le> of_int (round_half_even (x / ?u))"
    by (metis of_int_le_iff of_int_numeral of_int_power)
  then have "2 ^ 52 * ?u \<le> of_int (round_half_even (x / ?u)) * ?u"
    using u by (intro mult_right_mono) simp_all
  then show ?thesis by (simp add: e binary64_pos_unfold [OF x])
qed

lemma binary64_pos: "pow2 (- 1100) \<le> x \<Longrightarrow> 0 < binary64 x"
  using binary64_ge_pow2 [of x] pow2_pos [of "binade 1100 x"] by linarith

lemma binary64_ge_one: "1 \<le> x \<Longrightarrow> 1 \<le> binary64 x"
proof -
  assume x: "1 \<le> x"
  have "pow2 (- 1100) \<le> pow2 0" by (rule pow2_mono) simp
  also have "\<dots> \<le> x" using x by (simp add: pow2_def)
  finally have "pow2 (binade 1100 x) \<le> binary64 x" by (rule binary64_ge_pow2)
  moreover have "pow2 0 \<le> pow2 (binade 1100 x)" by (rule pow2_mono) (rule binade_nonneg [OF x])
  ultimately show ?thesis by (simp add: pow2_def)
qed

lemma binary64_of_int_pos:
  assumes "0 < c" "c < 2 ^ 53"
  shows "binary64 (of_int c) = of_int c"
proof -
  let ?x = "of_int c :: real"
  let ?e = "binade 1100 ?x"
  have x1: "1 \<le> ?x" using assms(1) by simp
  have "pow2 (- 1100) \<le> pow2 0" by (rule pow2_mono) simp
  also have "\<dots> \<le> ?x" using x1 by (simp add: pow2_def)
  finally have "pow2 ?e \<le> ?x" using binade_lower [of 1100 ?x] by simp
  also have "?x < pow2 53"
  proof -
    have "?x < of_int (2 ^ 53)" using assms(2) by (simp only: of_int_less_iff)
    then show ?thesis by (simp add: pow2_def)
  qed
  finally have "?e < 53" by (rule pow2_less_cancel)
  then have "?e - 52 = - int (nat (52 - ?e))" by simp
  then obtain d where d: "?e - 52 = - int d" ..
  have "?x / pow2 (?e - 52) = of_int (c * 2 ^ d)"
    by (simp add: d pow2_neg)
  then have "round_half_even (?x / pow2 (?e - 52)) = c * 2 ^ d"
    by (simp only: round_half_even_of_int)
  then show ?thesis
    using assms(1) by (simp add: binary64_def Let_def) (simp add: d pow2_neg)
qed

lemma binary64_of_int: "\<bar>c\<bar> < 2 ^ 53 \<Longrightarrow> binary64 (of_int c) = of_int c"
proof -
  assume a: "\<bar>c\<bar> < 2 ^ 53"
  consider "c = 0" | "0 < c" | "c < 0" by linarith
  then show ?thesis
  proof cases
    case 1
    then show ?thesis by (simp add: binary64_def)
  next
    case 2
    with a show ?thesis by (intro binary64_of_int_pos) simp_all
  next
    case 3
    with a have "binary64 (of_int (- c)) = of_int (- c)"
      by (intro binary64_of_int_pos) simp_all
    then show ?thesis using binary64_minus [of "of_int c"] by simp
  qed
qed

lemma binary64_numeral: "(numeral k :: int) < 2 ^ 53 \<Longrightarrow> binary64 (numeral k) = numeral k"
  using binary64_of_int [of "numeral k"] by simp

lemma binary64_1: "binary64 1 = 1"
  using binary64_of_int [of 1] by simp

lemmas binary64_ints = binary64_numeral binary64_0 binary64_1 binary64_minus

lemmas binary64_eval = binary64_def binade_numeral round_half_even_def pow2_def Let_def

text \<open>The doubles nearest to 0.1, 0.173, 0.047 and 2/3, and the rounded square root of the last.\<close>

lemma double_0100: "binary64 (1 / 10) = 3602879701896397 / 36028797018963968"
  by (simp add: binary64_eval)

lemma double_0173: "binary64 (173 / 1000) = 3116490942140383 / 18014398509481984"
  by (simp add: binary64_eval)

lemma double_0047: "binary64 (47 / 1000) = 3386706919782613 / 72057594037927936"
  by (simp add: binary64_eval)

lemma double_two_thirds: "binary64 (2 / 3) = 6004799503160661 / 9007199254740992"
  by (simp add: binary64_eval)

lemma double_sqrt_two_thirds:
  "binary64 (sqrt (6004799503160661 / 9007199254740992))
     = 3677173697615391 / 4503599627370496"
proof -
  let ?q = "6004799503160661 / 9007199254740992 :: real"
  let ?s = "sqrt ?q"
  have lo: "1 / 2 \<le> ?s" by (rule real_le_rsqrt) (simp add: power2_eq_square)
  have hi: "?s < 1" by simp
  have "(1100 :: nat) = Suc (Suc 1098)" by simp
  then have e: "binade 1100 ?s = - 1"
    using binade_half [OF lo hi, of 1098] by (simp only:)
  have a: "(7354347395230782 - 1 / 2) / 2 ^ 53 < ?s"
    by (rule real_less_rsqrt) (simp add: power2_eq_square)
  have b: "?s < (7354347395230782 + 1 / 2) / 2 ^ 53"
    by (rule real_less_lsqrt) (simp_all add: power2_eq_square)
  have u: "pow2 (- 1 - 52) = 1 / 2 ^ 53" by (simp add: pow2_def)
  have "round_half_even (?s / pow2 (- 1 - 52)) = 7354347395230782"
  proof (rule round_half_even_unique)
    show "of_int 7354347395230782 - 1 / 2 < ?s / pow2 (- 1 - 52)"
      using a unfolding u by (simp add: field_simps)
    show "?s / pow2 (- 1 - 52) < of_int 7354347395230782 + 1 / 2"
      using b unfolding u by (simp add: field_simps)
  qed
  moreover have "0 < ?s" using lo by linarith
  ultimately have "binary64 ?s = of_int 7354347395230782 * pow2 (- 1 - 52)"
    by (simp only: binary64_pos_unfold e)
  then show ?thesis unfolding u by simp
qed

lemma sqrt_two_thirds_bounds:
  "816496580 / 1000000000 < sqrt (2 / 3 :: real)"
  "sqrt (2 / 3 :: real) < 816496581 / 1000000000"
  by (rule real_less_rsqrt, simp add: power2_eq_square)
     (rule real_less_lsqrt, simp_all add: power2_eq_square)

text \<open>
  The rounding error of \<open>binary64\<close> is at most half a unit in the last place, hence at
  most \<open>2\<^sup>-\<^sup>5\<^sup>3\<close> relative to its argument, and rounding does not cross a power of two.
\<close>

lemma round_half_even_error: "\<bar>of_int (round_half_even y) - y\<bar> \<le> 1 / 2"
  unfolding round_half_even_def Let_def by (auto; linarith)

lemma binary64_error:
  assumes "0 < x"
  shows "\<bar>binary64 x - x\<bar> \<le> pow2 (binade 1100 x - 52) / 2"
proof -
  let ?u = "pow2 (binade 1100 x - 52)"
  have u: "0 < ?u" by (rule pow2_pos)
  have "binary64 x - x = (of_int (round_half_even (x / ?u)) - x / ?u) * ?u"
    using u by (simp add: binary64_pos_unfold [OF assms] left_diff_distrib)
  then have "\<bar>binary64 x - x\<bar> = \<bar>of_int (round_half_even (x / ?u)) - x / ?u\<bar> * ?u"
    using u by (simp add: abs_mult)
  also have "\<dots> \<le> (1 / 2) * ?u"
    using u by (intro mult_right_mono round_half_even_error) simp
  finally show ?thesis by simp
qed

lemma binary64_rel_error:
  assumes "pow2 (- 1100) \<le> x"
  shows "\<bar>binary64 x - x\<bar> \<le> x / 2 ^ 53"
proof -
  let ?e = "binade 1100 x"
  have x: "0 < x" using assms pow2_pos [of "- 1100"] by linarith
  have lo: "pow2 ?e \<le> x" using binade_lower [of 1100 x] assms by simp
  have "pow2 (?e - 52) = pow2 ?e * pow2 (- 52)"
    using pow2_add [of ?e "- 52"] by simp
  also have "\<dots> = pow2 ?e / 2 ^ 52" by (simp add: pow2_def)
  finally have "pow2 (?e - 52) / 2 = pow2 ?e / 2 ^ 53" by simp
  also have "\<dots> \<le> x / 2 ^ 53" using lo by (simp add: divide_right_mono)
  finally show ?thesis using binary64_error [OF x] by linarith
qed

lemma binary64_rel_error_abs:
  assumes "pow2 (- 1100) \<le> \<bar>x\<bar>"
  shows "\<bar>binary64 x - x\<bar> \<le> \<bar>x\<bar> / 2 ^ 53"
proof (cases "0 \<le> x")
  case True
  with assms show ?thesis using binary64_rel_error [of x] by simp
next
  case False
  with assms have "\<bar>binary64 (- x) - (- x)\<bar> \<le> (- x) / 2 ^ 53"
    by (intro binary64_rel_error) simp
  moreover have "\<bar>binary64 (- x) - (- x)\<bar> = \<bar>binary64 x - x\<bar>"
    by (simp add: binary64_minus abs_minus_commute)
  ultimately show ?thesis using False by simp
qed

lemma binade_ge:
  "pow2 i \<le> x \<Longrightarrow> i \<le> int k \<Longrightarrow> i \<le> binade k x"
proof (induction k arbitrary: x i)
  case 0
  then show ?case by simp
next
  case (Suc k)
  consider "2 \<le> x" | "x < 1" | "1 \<le> x" "x < 2" by linarith
  then show ?case
  proof cases
    case 1
    have "pow2 (i - 1) \<le> x / 2" using Suc.prems(1) by (simp add: pow2_pred)
    moreover have "i - 1 \<le> int k" using Suc.prems(2) by simp
    ultimately have "i - 1 \<le> binade k (x / 2)" by (rule Suc.IH)
    with 1 show ?thesis by simp
  next
    case 2
    have "pow2 i < pow2 0" using Suc.prems(1) 2 by (simp add: pow2_def)
    then have i: "i < 0" by (rule pow2_less_cancel)
    have "pow2 (i + 1) \<le> 2 * x" using Suc.prems(1) by (simp add: pow2_Suc)
    moreover have "i + 1 \<le> int k" using i by simp
    ultimately have "i + 1 \<le> binade k (2 * x)" by (rule Suc.IH)
    with 2 show ?thesis by simp
  next
    case 3
    have "pow2 i < pow2 1" using Suc.prems(1) 3 by (simp add: pow2_def)
    then have "i < 1" by (rule pow2_less_cancel)
    with 3 show ?thesis by simp
  qed
qed

lemma binary64_keeps_pow2:
  assumes "pow2 i \<le> x" "- 1100 \<le> i" "i \<le> 1100"
  shows "pow2 i \<le> binary64 x"
proof -
  have "pow2 (- 1100) \<le> pow2 i" using assms(2) by (rule pow2_mono)
  with assms(1) have "pow2 (- 1100) \<le> x" by linarith
  then have "pow2 (binade 1100 x) \<le> binary64 x" by (rule binary64_ge_pow2)
  moreover have "i \<le> binade 1100 x" using assms(1,3) by (intro binade_ge) simp_all
  then have "pow2 i \<le> pow2 (binade 1100 x)" by (rule pow2_mono)
  ultimately show ?thesis by linarith
qed

lemma rel_bounds:
  fixes b y u :: real
  shows "\<bar>b - y\<bar> \<le> y * u \<Longrightarrow> y * (1 - u) \<le> b \<and> b \<le> y * (1 + u)"
  by (simp add: algebra_simps abs_le_iff)

lemma binary64_bounds:
  assumes "y = 0 \<or> pow2 (- 1100) \<le> y"
  shows "y * (1 - 1 / 2 ^ 53) \<le> binary64 y \<and> binary64 y \<le> y * (1 + 1 / 2 ^ 53)"
proof (cases "y = 0")
  case True
  then show ?thesis by (simp add: binary64_0)
next
  case False
  with assms have "\<bar>binary64 y - y\<bar> \<le> y / 2 ^ 53" by (intro binary64_rel_error) simp
  then have "\<bar>binary64 y - y\<bar> \<le> y * (1 / 2 ^ 53)"
    by (simp only: times_divide_eq_right mult_1_right)
  then show ?thesis by (rule rel_bounds)
qed

lemma binary64_good:
  assumes "y = 0 \<or> pow2 (- 10) \<le> y"
  shows "binary64 y = 0 \<or> pow2 (- 10) \<le> binary64 y"
proof (cases "y = 0")
  case True
  then show ?thesis by (simp add: binary64_0)
next
  case False
  with assms have "pow2 (- 10) \<le> binary64 y" by (intro binary64_keeps_pow2) simp_all
  then show ?thesis ..
qed

lemma good_small: "y = 0 \<or> pow2 (- 10) \<le> y \<Longrightarrow> y = 0 \<or> pow2 (- 1100) \<le> y"
  using pow2_mono [of "- 1100" "- 10"] by auto

lemma binary64_rounding:
  assumes "y = 0 \<or> pow2 (- 10) \<le> y"
  shows "y * (1 - 1 / 2 ^ 53) \<le> binary64 y \<and> binary64 y \<le> y * (1 + 1 / 2 ^ 53) \<and>
         (binary64 y = 0 \<or> pow2 (- 10) \<le> binary64 y)"
  using binary64_bounds [OF good_small [OF assms]] binary64_good [OF assms] by blast

lemma tenth_normal: "pow2 (- 1100) \<le> \<bar>1 / 10 :: real\<bar>"
proof -
  have "pow2 (- 1100) \<le> pow2 (- 4)" by (rule pow2_mono) simp
  also have "\<dots> \<le> \<bar>1 / 10 :: real\<bar>" by (simp add: pow2_def)
  finally show ?thesis .
qed

section \<open>Properties of the benchmark runner\<close>

text \<open>The loop gathers one sample per iteration, in order.\<close>

lemma gather_eq:
  "gather rnd c now k i ts =
     ts @ map (\<lambda>j. sample rnd c (now (2 * j)) (now (2 * j + 1))) [i..<i + k]"
proof (induction k arbitrary: i ts)
  case 0
  then show ?case by simp
next
  case (Suc k)
  have "[i..<i + Suc k] = i # [Suc i..<Suc i + k]"
    by (simp add: upt_conv_Cons)
  with Suc.IH [of "Suc i"] show ?case by simp
qed

lemma length_gather: "length (gather rnd c now k i ts) = length ts + k"
  by (simp add: gather_eq)

lemma gather3:
  "gather rnd c now 3 0 [] =
     [sample rnd c (now 0) (now 1), sample rnd c (now 2) (now 3), sample rnd c (now 4) (now 5)]"
proof -
  have "[0..<0 + 3] = [0, 1, 2 :: nat]" by (simp add: upt_rec)
  then show ?thesis unfolding gather_eq by simp
qed

text \<open>\<open>min_element\<close> and \<open>max_element\<close> return the least and the greatest element.\<close>

lemma min_element_least:
  "min_element (x # xs) = Some m \<Longrightarrow> m \<in> set (x # xs) \<and> (\<forall>y\<in>set (x # xs). m \<le> y)"
proof (induction xs arbitrary: x m)
  case Nil
  then show ?case by simp
next
  case (Cons a xs)
  let ?x' = "if a < x then a else x"
  from Cons.prems have "min_element (?x' # xs) = Some m" by simp
  from Cons.IH [OF this] show ?case by (auto split: if_splits)
qed

lemma max_element_greatest:
  "max_element (x # xs) = Some m \<Longrightarrow> m \<in> set (x # xs) \<and> (\<forall>y\<in>set (x # xs). y \<le> m)"
proof (induction xs arbitrary: x m)
  case Nil
  then show ?case by simp
next
  case (Cons a xs)
  let ?x' = "if x < a then a else x"
  from Cons.prems have "max_element (?x' # xs) = Some m" by simp
  from Cons.IH [OF this] show ?case by (auto split: if_splits)
qed

text \<open>Without rounding the two accumulation loops are plain sums.\<close>

lemma foldl_fadd_exact: "foldl (fadd id) a xs = a + sum_list xs"
  by (induction xs arbitrary: a) (simp_all add: fadd_def)

lemma foldl_squares_exact:
  "foldl (\<lambda>acc v. let diff = fsub id v m in fadd id acc (fmul id diff diff)) a xs
     = a + (\<Sum>x\<leftarrow>xs. (x - m)\<^sup>2)"
  by (induction xs arbitrary: a)
    (simp_all add: fadd_def fsub_def fmul_def power2_eq_square Let_def)

lemma calculateStdDev_exact:
  "calculateStdDev id xs m = sqrt ((\<Sum>x\<leftarrow>xs. (x - m)\<^sup>2) / real (length xs))"
  by (simp add: calculateStdDev_def foldl_squares_exact fsqrt_def fdiv_def double_of_size_def)

lemma population_std_dev_exact:
  "calculateStdDev id xs (population_mean xs) = population_std_dev xs"
  by (simp add: calculateStdDev_exact population_std_dev_def)

lemma foldl_squares_map:
  "foldl (\<lambda>acc v. let diff = fsub rnd v m in fadd rnd acc (fmul rnd diff diff)) a xs
     = foldl (fadd rnd) a (map (\<lambda>x. fmul rnd (fsub rnd x m) (fsub rnd x m)) xs)"
  by (induction xs arbitrary: a) (simp_all add: Let_def)

lemma calculateStdDev_rounded: "calculateStdDev rnd xs m = rounded_std_dev rnd xs m"
  by (simp add: calculateStdDev_def rounded_std_dev_def foldl_squares_map)

text \<open>The exact mean lies between any two bounds of the samples.\<close>

lemma sum_list_lower: "(\<forall>x\<in>set xs. a \<le> x) \<Longrightarrow> a * real (length xs) \<le> sum_list xs"
  by (induction xs) (simp_all add: algebra_simps)

lemma sum_list_upper: "(\<forall>x\<in>set xs. x \<le> b) \<Longrightarrow> sum_list xs \<le> b * real (length xs)"
  by (induction xs) (simp_all add: algebra_simps)

lemma mean_between:
  assumes "xs \<noteq> []" "\<forall>x\<in>set xs. a \<le> x" "\<forall>x\<in>set xs. x \<le> b"
  shows "a \<le> population_mean xs \<and> population_mean xs \<le> b"
proof -
  have n: "0 < real (length xs)" using assms(1) by simp
  show ?thesis
    using sum_list_lower [OF assms(2)] sum_list_upper [OF assms(3)] n
    by (simp add: population_mean_def pos_le_divide_eq pos_divide_le_eq)
qed

text \<open>A rounding that keeps non-negative numbers non-negative gives a non-negative deviation.\<close>

lemma foldl_squares_nonneg:
  assumes "\<And>x. 0 \<le> x \<Longrightarrow> 0 \<le> rnd x" "0 \<le> a"
  shows "0 \<le> foldl (\<lambda>acc v. let diff = fsub rnd v m in fadd rnd acc (fmul rnd diff diff)) a xs"
  using assms(2)
proof (induction xs arbitrary: a)
  case Nil
  then show ?case by simp
next
  case (Cons x xs)
  have "0 \<le> fmul rnd (fsub rnd x m) (fsub rnd x m)"
    unfolding fmul_def by (rule assms(1)) simp
  with Cons.prems have "0 \<le> fadd rnd a (fmul rnd (fsub rnd x m) (fsub rnd x m))"
    unfolding fadd_def by (intro assms(1)) simp
  from Cons.IH [OF this] show ?case by (simp add: Let_def)
qed

lemma calculateStdDev_nonneg:
  assumes "\<And>x. 0 \<le> x \<Longrightarrow> 0 \<le> rnd x"
  shows "0 \<le> calculateStdDev rnd xs m"
proof -
  have s: "0 \<le> foldl (\<lambda>acc v. let diff = fsub rnd v m in fadd rnd acc (fmul rnd diff diff)) 0 xs"
    by (rule foldl_squares_nonneg [OF assms]) simp_all
  have n: "0 \<le> double_of_size rnd (length xs)"
    unfolding double_of_size_def by (rule assms) simp
  show ?thesis
    unfolding calculateStdDev_def Let_def fsqrt_def fdiv_def
    using s [unfolded Let_def] n by (intro assms real_sqrt_ge_zero divide_nonneg_nonneg)
qed

text \<open>With at least one iteration \<open>run\<close> returns a \<open>Result\<close>, whose fields are these.\<close>

lemma run_some:
  assumes "0 < n"
  shows "\<exists>mn mx. min_element (gather rnd c now n 0 []) = Some mn \<and>
           max_element (gather rnd c now n 0 []) = Some mx \<and>
           run rnd c now n =
             Some \<lparr>averageTime = fdiv rnd (foldl (fadd rnd) 0 (gather rnd c now n 0 []))
                                  (double_of_size rnd n),
                   minTime = mn, maxTime = mx,
                   stdDev = calculateStdDev rnd (gather rnd c now n 0 [])
                     (fdiv rnd (foldl (fadd rnd) 0 (gather rnd c now n 0 []))
                        (double_of_size rnd n)),
                   iterations = n\<rparr>"
proof -
  have "length (gather rnd c now n 0 []) = n" by (simp add: length_gather)
  with assms obtain x xs where g: "gather rnd c now n 0 [] = x # xs"
    by (cases "gather rnd c now n 0 []") auto
  have l: "length (x # xs) = n" using g length_gather [of rnd c now n 0 "[]"] by simp
  show ?thesis
    unfolding run_def g Let_def using l by simp
qed

lemma run_exact:
  assumes "0 < n"
  shows "\<exists>r. run id c now n = Some r \<and> iterations r = n \<and>
           averageTime r = population_mean (gather id c now n 0 []) \<and>
           stdDev r = population_std_dev (gather id c now n 0 []) \<and>
           minTime r \<le> averageTime r \<and> averageTime r \<le> maxTime r \<and> 0 \<le> stdDev r"
proof -
  let ?ts = "gather id c now n 0 []"
  have len: "length ?ts = n" by (simp add: length_gather)
  from run_some [OF assms, of id c now] obtain mn mx where
    mn: "min_element ?ts = Some mn" and mx: "max_element ?ts = Some mx" and
    r: "run id c now n =
      Some \<lparr>averageTime = fdiv id (foldl (fadd id) 0 ?ts) (double_of_size id n),
            minTime = mn, maxTime = mx,
            stdDev = calculateStdDev id ?ts
              (fdiv id (foldl (fadd id) 0 ?ts) (double_of_size id n)),
            iterations = n\<rparr>"
    by blast
  have mean: "fdiv id (foldl (fadd id) 0 ?ts) (double_of_size id n) = population_mean ?ts"
    by (simp add: fdiv_def double_of_size_def foldl_fadd_exact population_mean_def len)
  from len assms obtain x xs where ts: "?ts = x # xs" by (cases ?ts) auto
  have lo: "\<forall>y\<in>set ?ts. mn \<le> y" using min_element_least [of x xs mn] mn ts by simp
  have hi: "\<forall>y\<in>set ?ts. y \<le> mx" using max_element_greatest [of x xs mx] mx ts by simp
  have ne: "?ts \<noteq> []" using ts by simp
  have between: "mn \<le> population_mean ?ts \<and> population_mean ?ts \<le> mx"
    by (rule mean_between [OF ne lo hi])
  have sd: "0 \<le> population_std_dev ?ts"
    unfolding population_std_dev_def
    by (intro real_sqrt_ge_zero divide_nonneg_nonneg sum_list_nonneg) auto
  show ?thesis
    unfolding r mean population_std_dev_exact using between sd by simp
qed

lemma run_rounded:
  assumes "0 < n"
  shows "\<exists>r. run rnd c now n = Some r \<and> iterations r = n \<and>
           averageTime r = fdiv rnd (foldl (fadd rnd) 0 (gather rnd c now n 0 []))
                             (double_of_size rnd n) \<and>
           stdDev r = rounded_std_dev rnd (gather rnd c now n 0 []) (averageTime r) \<and>
           minTime r \<in> set (gather rnd c now n 0 []) \<and>
           maxTime r \<in> set (gather rnd c now n 0 []) \<and>
           (\<forall>x\<in>set (gather rnd c now n 0 []). minTime r \<le> x \<and> x \<le> maxTime r) \<and>
           minTime r \<le> maxTime r"
proof -
  let ?ts = "gather rnd c now n 0 []"
  have len: "length ?ts = n" by (simp add: length_gather)
  from run_some [OF assms, of rnd c now] obtain mn mx where
    mn: "min_element ?ts = Some mn" and mx: "max_element ?ts = Some mx" and
    r: "run rnd c now n =
      Some \<lparr>averageTime = fdiv rnd (foldl (fadd rnd) 0 ?ts) (double_of_size rnd n),
            minTime = mn, maxTime = mx,
            stdDev = calculateStdDev rnd ?ts
              (fdiv rnd (foldl (fadd rnd) 0 ?ts) (double_of_size rnd n)),
            iterations = n\<rparr>"
    by blast
  from len assms obtain x xs where ts: "?ts = x # xs" by (cases ?ts) auto
  have lo: "mn \<in> set ?ts \<and> (\<forall>y\<in>set ?ts. mn \<le> y)"
    using min_element_least [of x xs mn] mn ts by simp
  have hi: "mx \<in> set ?ts \<and> (\<forall>y\<in>set ?ts. y \<le> mx)"
    using max_element_greatest [of x xs mx] mx ts by simp
  from lo hi have "mn \<le> mx" by blast
  with lo hi show ?thesis
    unfolding r calculateStdDev_rounded by simp
qed

lemma rounded_std_dev_nonneg:
  "(\<And>x. 0 \<le> x \<Longrightarrow> 0 \<le> rnd x) \<Longrightarrow> 0 \<le> rounded_std_dev rnd xs m"
  using calculateStdDev_nonneg [of rnd xs m] by (simp add: calculateStdDev_rounded)

lemma rounded_std_dev_exact:
  "rounded_std_dev id xs (population_mean xs) = population_std_dev xs"
  using population_std_dev_exact [of xs] by (simp add: calculateStdDev_rounded)

text \<open>
  The running sum under a rounding of relative error \<open>u\<close> that keeps zero and keeps values
  from falling under \<open>L\<close>: after \<open>k\<close> additions of non-negative samples it is within the
  factors \<open>(1 - u)\<^sup>k\<close> and \<open>(1 + u)\<^sup>k\<close> of the exact sum.
\<close>

lemma foldl_fadd_bounds:
  fixes u L :: real
  assumes R: "\<And>y. y = 0 \<or> L \<le> y \<Longrightarrow>
                y * (1 - u) \<le> rnd y \<and> rnd y \<le> y * (1 + u) \<and> (rnd y = 0 \<or> L \<le> rnd y)"
    and u: "0 \<le> u" "u \<le> 1" and L: "0 < L"
    and xs: "\<forall>x\<in>set xs. x = 0 \<or> L \<le> x" and a: "a = 0 \<or> L \<le> a"
  shows "(foldl (fadd rnd) a xs = 0 \<or> L \<le> foldl (fadd rnd) a xs) \<and>
         (a + sum_list xs) * (1 - u) ^ length xs \<le> foldl (fadd rnd) a xs \<and>
         foldl (fadd rnd) a xs \<le> (a + sum_list xs) * (1 + u) ^ length xs"
  using xs a
proof (induction xs arbitrary: a)
  case Nil
  then show ?case by simp
next
  case (Cons x xs)
  let ?a = "rnd (a + x)"
  let ?F = "foldl (fadd rnd) ?a xs"
  let ?m = "length xs"
  have gx: "x = 0 \<or> L \<le> x" and gxs: "\<forall>y\<in>set xs. y = 0 \<or> L \<le> y"
    using Cons.prems(1) by simp_all
  have gax: "a + x = 0 \<or> L \<le> a + x" using Cons.prems(2) gx L by auto
  from R [OF gax] have ga': "?a = 0 \<or> L \<le> ?a" and
    b: "(a + x) * (1 - u) \<le> ?a" "?a \<le> (a + x) * (1 + u)"
    by simp_all
  have "0 \<le> y" if "y \<in> set xs" for y using gxs that L by auto
  then have s: "0 \<le> sum_list xs" by (rule sum_list_nonneg)
  from Cons.IH [OF gxs ga'] have
    g: "?F = 0 \<or> L \<le> ?F" and
    lo: "(?a + sum_list xs) * (1 - u) ^ ?m \<le> ?F" and
    hi: "?F \<le> (?a + sum_list xs) * (1 + u) ^ ?m"
    by simp_all
  have "sum_list xs \<le> sum_list xs * (1 + u)"
    using s u(1) by (simp add: algebra_simps)
  with b(2) have "?a + sum_list xs \<le> (a + x + sum_list xs) * (1 + u)"
    by (simp add: algebra_simps)
  then have "(?a + sum_list xs) * (1 + u) ^ ?m
      \<le> (a + x + sum_list xs) * (1 + u) * (1 + u) ^ ?m"
    using u(1) by (intro mult_right_mono) simp_all
  with hi have hi': "?F \<le> (a + sum_list (x # xs)) * (1 + u) ^ length (x # xs)"
    by (simp add: mult.assoc add.assoc)
  have "sum_list xs * (1 - u) \<le> sum_list xs"
    using s u(1) by (simp add: algebra_simps)
  with b(1) have "(a + x + sum_list xs) * (1 - u) \<le> ?a + sum_list xs"
    by (simp add: algebra_simps)
  then have "(a + x + sum_list xs) * (1 - u) * (1 - u) ^ ?m
      \<le> (?a + sum_list xs) * (1 - u) ^ ?m"
    using u(2) by (intro mult_right_mono) simp_all
  with lo have lo': "(a + sum_list (x # xs)) * (1 - u) ^ length (x # xs) \<le> ?F"
    by (simp add: mult.assoc add.assoc)
  have e: "fadd rnd a x = rnd (a + x)" by (simp add: fadd_def)
  show ?case using g lo' hi' by (simp add: e)
qed

text \<open>
  When the clock does not run backwards during an operation, every sample is zero or at
  least \<open>2\<^sup>-\<^sup>1\<^sup>0\<close> (a microsecond is 0.001 ms).
\<close>

lemma sdiv_nonneg: "0 \<le> a \<Longrightarrow> 0 \<le> b \<Longrightarrow> 0 \<le> (a :: int) sdiv b"
proof -
  assume a: "0 \<le> a" and b: "0 \<le> b"
  have "0 \<le> \<bar>a\<bar> div \<bar>b\<bar>" by (simp add: div_int_pos_iff)
  moreover have "0 \<le> sgn a * sgn b" using a b by (simp add: sgn_if)
  ultimately show ?thesis
    unfolding signed_divide_int_def by (rule mult_nonneg_nonneg [rotated])
qed

lemma duration_cast_nonneg:
  assumes "0 < period_num c" "0 < period_den c" "0 \<le> t"
  shows "0 \<le> duration_cast_microseconds c t"
proof -
  let ?n = "period_num c * 1000000"
  let ?g = "gcd ?n (period_den c)"
  have g: "0 < ?g" using assms(2) by simp
  have cn: "0 \<le> ?n div ?g" using assms(1) g by (simp add: pos_imp_zdiv_nonneg_iff)
  have cd: "0 \<le> period_den c div ?g" using assms(2) g by (simp add: pos_imp_zdiv_nonneg_iff)
  have "0 \<le> t * (?n div ?g)" using assms(3) cn by simp
  then have "0 \<le> (t * (?n div ?g)) sdiv (period_den c div ?g)"
    using cd by (rule sdiv_nonneg)
  then show ?thesis by (simp add: duration_cast_microseconds_def Let_def)
qed

lemma sample_good:
  assumes "0 < period_num c" "0 < period_den c" "s \<le> e"
  shows "sample binary64 c s e = 0 \<or> pow2 (- 10) \<le> sample binary64 c s e"
proof -
  let ?d = "duration_cast_microseconds c (e - s)"
  have d: "0 \<le> ?d" using assms by (intro duration_cast_nonneg) simp_all
  show ?thesis
  proof (cases "?d = 0")
    case True
    then show ?thesis by (simp add: sample_def fdiv_def double_of_int_def binary64_0)
  next
    case False
    with d have "1 \<le> binary64 (of_int ?d)" by (intro binary64_ge_one) simp
    then have "1 / 1000 \<le> binary64 (of_int ?d) / 1000" by simp
    moreover have "pow2 (- 10) \<le> 1 / 1000" by (simp add: pow2_def)
    ultimately have "pow2 (- 10) \<le> binary64 (of_int ?d) / 1000" by linarith
    then have "pow2 (- 10) \<le> binary64 (binary64 (of_int ?d) / 1000)"
      by (rule binary64_keeps_pow2) simp_all
    then show ?thesis by (simp add: sample_def fdiv_def double_of_int_def)
  qed
qed

lemma gather_good:
  assumes "0 < period_num c" "0 < period_den c" "\<forall>i<n. now (2 * i) \<le> now (2 * i + 1)"
  shows "\<forall>x\<in>set (gather binary64 c now n 0 []). x = 0 \<or> pow2 (- 10) \<le> x"
proof
  fix x
  assume "x \<in> set (gather binary64 c now n 0 [])"
  then obtain j where j: "j < n" and
    x: "x = sample binary64 c (now (2 * j)) (now (2 * j + 1))"
    by (auto simp: gather_eq)
  from assms(3) j have "now (2 * j) \<le> now (2 * j + 1)" by blast
  then show "x = 0 \<or> pow2 (- 10) \<le> x"
    unfolding x by (rule sample_good [OF assms(1,2)])
qed

text \<open>The rounded mean of \<open>n\<close> such samples lies within \<open>n + 1\<close> rounding errors of their range.\<close>

lemma double_of_size_exact: "n < 2 ^ 53 \<Longrightarrow> double_of_size binary64 n = real n"
proof -
  assume "n < 2 ^ 53"
  then have "int n < 2 ^ 53" by (metis of_nat_less_iff of_nat_numeral of_nat_power)
  then have "binary64 (of_int (int n)) = of_int (int n)" by (intro binary64_of_int) simp
  then show ?thesis by (simp add: double_of_size_def)
qed

lemma mean_rounded_bounds:
  assumes n: "0 < n" "n < 2 ^ 53"
    and xs: "length xs = n" "\<forall>x\<in>set xs. x = 0 \<or> pow2 (- 10) \<le> x"
    and mn: "\<forall>x\<in>set xs. mn \<le> x" "0 \<le> mn" and mx: "\<forall>x\<in>set xs. x \<le> mx"
  shows "mn * (1 - 1 / 2 ^ 53) ^ (n + 1)
           \<le> fdiv binary64 (foldl (fadd binary64) 0 xs) (double_of_size binary64 n) \<and>
         fdiv binary64 (foldl (fadd binary64) 0 xs) (double_of_size binary64 n)
           \<le> mx * (1 + 1 / 2 ^ 53) ^ (n + 1)"
proof -
  define u :: real where "u = 1 / 2 ^ 53"
  define S where "S = foldl (fadd binary64) 0 xs"
  have u: "0 \<le> u" "u \<le> 1" by (simp_all add: u_def)
  have rn: "0 < real n" using n(1) by simp
  have R: "y * (1 - u) \<le> binary64 y \<and> binary64 y \<le> y * (1 + u) \<and>
      (binary64 y = 0 \<or> pow2 (- 10) \<le> binary64 y)" if "y = 0 \<or> pow2 (- 10) \<le> y" for y
    unfolding u_def using that by (rule binary64_rounding)
  from foldl_fadd_bounds [of "pow2 (- 10)" u binary64 xs 0, OF R u pow2_pos xs(2)]
  have S: "S = 0 \<or> pow2 (- 10) \<le> S"
    "sum_list xs * (1 - u) ^ n \<le> S" "S \<le> sum_list xs * (1 + u) ^ n"
    by (simp_all add: S_def xs(1))
  have lo: "mn * real n \<le> sum_list xs" using sum_list_lower [OF mn(1)] by (simp add: xs(1))
  have hi: "sum_list xs \<le> mx * real n" using sum_list_upper [OF mx] by (simp add: xs(1))
  have S0: "0 \<le> S" using S(1) pow2_pos [of "- 10"] by auto
  have q: "S / real n = 0 \<or> pow2 (- 1100) \<le> S / real n"
  proof (cases "S = 0")
    case True
    then show ?thesis by simp
  next
    case False
    with S(1) have "pow2 (- 10) \<le> S" by simp
    moreover have "real n \<le> 2 ^ 53"
      using n(2) by (metis less_imp_le of_nat_le_iff of_nat_numeral of_nat_power)
    ultimately have "pow2 (- 10) / 2 ^ 53 \<le> S / real n"
      using rn pow2_pos [of "- 10"] by (intro frac_le) simp_all
    moreover have "pow2 (- 63) = pow2 (- 10) / 2 ^ 53"
      using pow2_add [of "- 10" "- 53"] by (simp add: pow2_neg [of 53, simplified])
    moreover have "pow2 (- 1100) \<le> pow2 (- 63)" by (rule pow2_mono) simp
    ultimately show ?thesis by linarith
  qed
  from binary64_bounds [OF q] have
    m: "S / real n * (1 - u) \<le> binary64 (S / real n)"
       "binary64 (S / real n) \<le> S / real n * (1 + u)"
    by (simp_all add: u_def)
  have "mn * real n * (1 - u) ^ n \<le> sum_list xs * (1 - u) ^ n"
    using lo u by (intro mult_right_mono) simp_all
  with S(2) have "mn * real n * (1 - u) ^ n \<le> S" by linarith
  then have "mn * (1 - u) ^ n \<le> S / real n"
    using rn by (simp add: pos_le_divide_eq mult.assoc mult.commute mult.left_commute)
  then have "mn * (1 - u) ^ n * (1 - u) \<le> S / real n * (1 - u)"
    using u by (intro mult_right_mono) simp_all
  with m(1) have A: "mn * (1 - u) ^ (n + 1) \<le> binary64 (S / real n)"
    by (simp add: mult.assoc mult.commute mult.left_commute)
  have "sum_list xs * (1 + u) ^ n \<le> mx * real n * (1 + u) ^ n"
    using hi u by (intro mult_right_mono) simp_all
  with S(3) have "S \<le> mx * real n * (1 + u) ^ n" by linarith
  then have "S / real n \<le> mx * (1 + u) ^ n"
    using rn by (simp add: pos_divide_le_eq mult.assoc mult.commute mult.left_commute)
  then have "S / real n * (1 + u) \<le> mx * (1 + u) ^ n * (1 + u)"
    using u by (intro mult_right_mono) simp_all
  with m(2) have B: "binary64 (S / real n) \<le> mx * (1 + u) ^ (n + 1)"
    by (simp add: mult.assoc mult.commute mult.left_commute)
  from A B show ?thesis
    unfolding fdiv_def double_of_size_exact [OF n(2)] S_def [symmetric] u_def by blast
qed

text \<open>On a nanosecond clock the cast drops the nanoseconds beyond the last whole microsecond.\<close>

lemma nanosecond_truncation:
  assumes "0 \<le> d" "0 \<le> r" "r < 1000"
  shows "duration_cast_microseconds nanosecond_clock (1000 * d + r) = d"
proof -
  have "0 \<le> 1000 * d + r" using assms by simp
  then have "(1000 * d + r) sdiv 1000 = (1000 * d + r) div 1000"
    by (cases "1000 * d + r = 0") (simp_all add: signed_divide_int_def)
  also have "\<dots> = d" using assms by simp
  finally show ?thesis
    by (simp add: duration_cast_microseconds_def nanosecond_clock_def)
qed

text \<open>The samples and results of the three-iteration runs used below.\<close>

lemma ramp_durations:
  "duration_cast_microseconds nanosecond_clock (ramp_clock 1 - ramp_clock 0) = 1000"
  "duration_cast_microseconds nanosecond_clock (ramp_clock 3 - ramp_clock 2) = 2000"
  "duration_cast_microseconds nanosecond_clock (ramp_clock 5 - ramp_clock 4) = 3000"
  by (simp_all add: ramp_clock_def duration_cast_microseconds_def nanosecond_clock_def
      signed_divide_int_def)

lemma ramp_samples_exact:
  "gather id nanosecond_clock ramp_clock 3 0 [] = [1, 2, 3]"
  unfolding gather3 sample_def ramp_durations
  by (simp add: fdiv_def double_of_int_def)

lemma ramp_samples_binary64:
  "gather binary64 nanosecond_clock ramp_clock 3 0 [] = [1, 2, 3]"
proof -
  have "fdiv binary64 (double_of_int binary64 1000) 1000 = 1"
    "fdiv binary64 (double_of_int binary64 2000) 1000 = 2"
    "fdiv binary64 (double_of_int binary64 3000) 1000 = 3"
    by (simp_all add: fdiv_def double_of_int_def binary64_ints)
  then show ?thesis
    unfolding gather3 sample_def ramp_durations by simp
qed

lemma run_exact_ramp:
  "run id nanosecond_clock ramp_clock 3 =
     Some \<lparr>averageTime = 2, minTime = 1, maxTime = 3, stdDev = sqrt (2 / 3), iterations = 3\<rparr>"
  unfolding run_def ramp_samples_exact Let_def
  by (simp add: fadd_def fdiv_def double_of_size_def calculateStdDev_exact)

lemma run_binary64_ramp:
  "run binary64 nanosecond_clock ramp_clock 3 =
     Some \<lparr>averageTime = 2, minTime = 1, maxTime = 3,
           stdDev = 3677173697615391 / 4503599627370496, iterations = 3\<rparr>"
proof -
  have sum: "foldl (fadd binary64) 0 [1, 2, 3] = 6"
    by (simp add: fadd_def binary64_ints)
  have n: "double_of_size binary64 (length [1, 2, 3 :: real]) = 3"
    by (simp add: double_of_size_def binary64_ints)
  have mean: "fdiv binary64 6 3 = 2"
    by (simp add: fdiv_def binary64_ints)
  have sq: "foldl (\<lambda>acc v. let diff = fsub binary64 v 2
                            in fadd binary64 acc (fmul binary64 diff diff)) 0 [1, 2, 3] = 2"
    by (simp add: fadd_def fsub_def fmul_def binary64_ints)
  have sd: "calculateStdDev binary64 [1, 2, 3] 2 = 3677173697615391 / 4503599627370496"
    unfolding calculateStdDev_def sq n
    by (simp add: fsqrt_def fdiv_def double_two_thirds double_sqrt_two_thirds)
  show ?thesis
    unfolding run_def ramp_samples_binary64 Let_def sum n mean sd by simp
qed

lemma steady_samples:
  assumes "0 \<le> d"
  shows "gather rnd nanosecond_clock (steady_clock d) 3 0 [] =
           [fdiv rnd (double_of_int rnd d) 1000, fdiv rnd (double_of_int rnd d) 1000,
            fdiv rnd (double_of_int rnd d) 1000]"
proof -
  have "steady_clock d (2 * j + 1) - steady_clock d (2 * j) = 1000 * d + 0" for j
    by (simp add: steady_clock_def algebra_simps)
  moreover have "duration_cast_microseconds nanosecond_clock (1000 * d + 0) = d"
    using assms by (intro nanosecond_truncation) simp_all
  ultimately have "duration_cast_microseconds nanosecond_clock
          (steady_clock d (2 * j + 1) - steady_clock d (2 * j)) = d" for j
    by (simp only:)
  then have s: "sample rnd nanosecond_clock (steady_clock d (2 * j)) (steady_clock d (2 * j + 1))
      = fdiv rnd (double_of_int rnd d) 1000" for j
    by (simp add: sample_def)
  have "gather rnd nanosecond_clock (steady_clock d) 3 0 [] =
      map (\<lambda>j. fdiv rnd (double_of_int rnd d) 1000) [0..<3]"
    unfolding gather_eq s by simp
  also have "\<dots> = replicate 3 (fdiv rnd (double_of_int rnd d) 1000)"
    by (simp only: map_replicate_const length_upt diff_zero)
  finally show ?thesis by (simp add: numeral_3_eq_3)
qed

lemma size3: "double_of_size binary64 (Suc (Suc (Suc 0))) = 3"
  using binary64_numeral [of "num.Bit1 num.One"] by (simp add: double_of_size_def)

lemma steady_100_samples:
  "gather binary64 nanosecond_clock (steady_clock 100) 3 0 [] =
     [3602879701896397 / 36028797018963968, 3602879701896397 / 36028797018963968,
      3602879701896397 / 36028797018963968]"
proof -
  have "fdiv binary64 (double_of_int binary64 100) 1000 = 3602879701896397 / 36028797018963968"
    by (simp add: fdiv_def double_of_int_def binary64_ints double_0100)
  then show ?thesis by (simp add: steady_samples)
qed

lemma steady_100_sum:
  "foldl (fadd binary64) 0
     [3602879701896397 / 36028797018963968, 3602879701896397 / 36028797018963968,
      3602879701896397 / 36028797018963968] = 1351079888211149 / 4503599627370496"
  by (simp add: fadd_def binary64_eval)

lemma steady_100_mean:
  "fdiv binary64 (1351079888211149 / 4503599627370496) 3
     = 7205759403792795 / 72057594037927936"
  by (simp add: fdiv_def binary64_eval)

lemma steady_173_samples:
  "gather binary64 nanosecond_clock (steady_clock 173) 3 0 [] =
     [3116490942140383 / 18014398509481984, 3116490942140383 / 18014398509481984,
      3116490942140383 / 18014398509481984]"
proof -
  have "fdiv binary64 (double_of_int binary64 173) 1000 = 3116490942140383 / 18014398509481984"
    by (simp add: fdiv_def double_of_int_def binary64_ints double_0173)
  then show ?thesis by (simp add: steady_samples)
qed

lemma steady_173_sum:
  "foldl (fadd binary64) 0
     [3116490942140383 / 18014398509481984, 3116490942140383 / 18014398509481984,
      3116490942140383 / 18014398509481984] = 2337368206605287 / 4503599627370496"
  by (simp add: fadd_def binary64_eval)

lemma steady_173_mean:
  "fdiv binary64 (2337368206605287 / 4503599627370496) 3
     = 6232981884280765 / 36028797018963968"
  by (simp add: fdiv_def binary64_eval)

lemma ramp_clock_mono: "ramp_clock (2 * i) \<le> ramp_clock (2 * i + 1)"
proof -
  have "(2 * i + 1) div 2 = i" "(2 * i + 1 + 1) div 2 = i + 1" by simp_all
  then have "ramp_clock (2 * i) = 500000 * int i * (int i + 1)"
    "ramp_clock (2 * i + 1) = 500000 * (int i + 1) * (int i + 2)"
    by (simp_all add: ramp_clock_def algebra_simps)
  then show ?thesis by (simp add: algebra_simps)
qed

lemma steady_100_diff:
  "fsub binary64 (3602879701896397 / 36028797018963968) (7205759403792795 / 72057594037927936)
     = - (1 / 72057594037927936)"
  by (simp add: fsub_def binary64_eval)

lemma steady_100_square:
  "fmul binary64 (- (1 / 72057594037927936)) (- (1 / 72057594037927936))
     = 1 / 5192296858534827628530496329220096"
  by (simp add: fmul_def binary64_eval)

lemma steady_100_squares:
  "foldl (\<lambda>acc v. let diff = fsub binary64 v (7205759403792795 / 72057594037927936)
                     in fadd binary64 acc (fmul binary64 diff diff)) 0
     [3602879701896397 / 36028797018963968, 3602879701896397 / 36028797018963968,
      3602879701896397 / 36028797018963968]
   = 3 / 5192296858534827628530496329220096"
proof -
  have f: "fadd binary64 0 (1 / 5192296858534827628530496329220096)
      = 1 / 5192296858534827628530496329220096"
    "fadd binary64 (1 / 5192296858534827628530496329220096)
       (1 / 5192296858534827628530496329220096) = 1 / 2596148429267413814265248164610048"
    "fadd binary64 (1 / 2596148429267413814265248164610048)
       (1 / 5192296858534827628530496329220096) = 3 / 5192296858534827628530496329220096"
    by (simp_all add: fadd_def binary64_eval)
  show ?thesis
    by (simp only: foldl_Cons foldl_Nil Let_def steady_100_diff steady_100_square f)
qed

lemma steady_100_std_dev:
  "calculateStdDev binary64
     [3602879701896397 / 36028797018963968, 3602879701896397 / 36028797018963968,
      3602879701896397 / 36028797018963968] (7205759403792795 / 72057594037927936)
   = 1 / 72057594037927936"
proof -
  have q: "fdiv binary64 (3 / 5192296858534827628530496329220096) 3
      = 1 / 5192296858534827628530496329220096"
    by (simp add: fdiv_def binary64_eval)
  have "sqrt (1 / 5192296858534827628530496329220096) = 1 / 72057594037927936"
    by (rule real_sqrt_unique) (simp_all add: power2_eq_square)
  moreover have "binary64 (1 / 72057594037927936) = 1 / 72057594037927936"
    by (simp add: binary64_eval)
  ultimately have r: "fsqrt binary64 (1 / 5192296858534827628530496329220096)
      = 1 / 72057594037927936"
    by (simp only: fsqrt_def)
  have n: "double_of_size binary64 (length [3602879701896397 / 36028797018963968 :: real,
      3602879701896397 / 36028797018963968, 3602879701896397 / 36028797018963968]) = 3"
    by (simp add: size3)
  show ?thesis
    unfolding calculateStdDev_def Let_def steady_100_squares [unfolded Let_def] n q r ..
qed

text \<open>
  Claim C1, as stated, fails in double arithmetic.  Three operations of 100 microseconds
  give three equal samples, whose population standard deviation is 0; the mean of the code
  is one unit in the last place above the samples, and \<open>stdDev\<close> comes out as \<open>2\<^sup>-\<^sup>5\<^sup>6\<close>.
  For 1 ms, 2 ms and 3 ms the population standard deviation of the samples is \<open>sqrt(2/3)\<close>,
  and \<open>stdDev\<close> is a double close to it, not that number.
\<close>

theorem std_dev_not_population_counterexample:
  "map_option stdDev (run binary64 nanosecond_clock (steady_clock 100) 3)
     = Some (1 / 72057594037927936) \<and>
   population_std_dev (gather binary64 nanosecond_clock (steady_clock 100) 3 0 []) = 0 \<and>
   map_option stdDev (run binary64 nanosecond_clock ramp_clock 3)
     = Some (3677173697615391 / 4503599627370496) \<and>
   population_std_dev (gather binary64 nanosecond_clock ramp_clock 3 0 []) = sqrt (2 / 3) \<and>
   3677173697615391 / 4503599627370496 \<noteq> sqrt (2 / 3)"
proof -
  have a: "map_option stdDev (run binary64 nanosecond_clock (steady_clock 100) 3)
     = Some (1 / 72057594037927936)"
    unfolding run_def steady_100_samples steady_100_sum Let_def
    by (simp add: steady_100_mean size3 steady_100_std_dev)
  have b: "population_std_dev (gather binary64 nanosecond_clock (steady_clock 100) 3 0 []) = 0"
    unfolding steady_100_samples by (simp add: population_std_dev_def population_mean_def)
  have c: "map_option stdDev (run binary64 nanosecond_clock ramp_clock 3)
     = Some (3677173697615391 / 4503599627370496)"
    by (simp add: run_binary64_ramp)
  have d: "population_std_dev (gather binary64 nanosecond_clock ramp_clock 3 0 []) = sqrt (2 / 3)"
    unfolding ramp_samples_binary64
    by (simp add: population_std_dev_def population_mean_def)
  have e: "3677173697615391 / 4503599627370496 \<noteq> sqrt (2 / 3 :: real)"
  proof
    assume "3677173697615391 / 4503599627370496 = sqrt (2 / 3 :: real)"
    then have "(3677173697615391 / 4503599627370496 :: real)\<^sup>2 = (sqrt (2 / 3))\<^sup>2"
      by (simp only:)
    also have "\<dots> = 2 / 3" by (rule real_sqrt_pow2) simp
    finally show False by (simp add: power2_eq_square)
  qed
  from a b c d e show ?thesis by blast
qed

text \<open>
  Claim C1, amended.  For \<open>n \<ge> 1\<close> iterations \<open>run\<close> returns a \<open>Result\<close> over the \<open>n\<close>
  gathered samples whose \<open>stdDev\<close> is the population formula \<open>sqrt(\<Sum>(x\<^sub>i - mean)\<^sup>2 / n)\<close>,
  with divisor \<open>n\<close>, evaluated around the computed \<open>averageTime\<close> with every operation
  rounded; in double arithmetic each rounding has a relative error of at most \<open>2\<^sup>-\<^sup>5\<^sup>3\<close>.
  When nothing is rounded that value is the population standard deviation itself, and
  \<open>run\<close> without rounding returns it with the mean \<open>\<Sum>x\<^sub>i / n\<close>.  Three operations of 1 ms,
  2 ms and 3 ms give in double arithmetic mean 2, minimum 1, maximum 3 and the deviation
  0.816496580927726, within \<open>10\<^sup>-\<^sup>9\<close> of \<open>sqrt(2/3)\<close>, which is within 0.001 of 0.816.
\<close>

theorem run_std_dev_rounded:
  "0 < n \<Longrightarrow>
   (\<exists>r. run rnd c now n = Some r \<and>
        stdDev r = rounded_std_dev rnd (gather rnd c now n 0 []) (averageTime r)) \<and>
   length (gather rnd c now n 0 []) = n \<and>
   (pow2 (- 1100) \<le> \<bar>x\<bar> \<longrightarrow> \<bar>binary64 x - x\<bar> \<le> \<bar>x\<bar> / 2 ^ 53) \<and>
   rounded_std_dev id xs (population_mean xs) = population_std_dev xs \<and>
   (\<exists>r. run id c now n = Some r \<and>
        averageTime r = population_mean (gather id c now n 0 []) \<and>
        stdDev r = population_std_dev (gather id c now n 0 [])) \<and>
   run binary64 nanosecond_clock ramp_clock 3 =
     Some \<lparr>averageTime = 2, minTime = 1, maxTime = 3,
           stdDev = 3677173697615391 / 4503599627370496, iterations = 3\<rparr> \<and>
   \<bar>3677173697615391 / 4503599627370496 - sqrt (2 / 3)\<bar> < 1 / 1000000000 \<and>
   \<bar>sqrt (2 / 3) - 816 / 1000\<bar> < 1 / 1000 \<and>
   run id nanosecond_clock ramp_clock 3 =
     Some \<lparr>averageTime = 2, minTime = 1, maxTime = 3, stdDev = sqrt (2 / 3),
           iterations = 3\<rparr>"
proof -
  assume n: "0 < n"
  from run_exact [OF n, of c now]
  have a: "\<exists>r. run id c now n = Some r \<and>
        averageTime r = population_mean (gather id c now n 0 []) \<and>
        stdDev r = population_std_dev (gather id c now n 0 [])"
    by blast
  from run_rounded [OF n, of rnd c now]
  have b: "\<exists>r. run rnd c now n = Some r \<and>
        stdDev r = rounded_std_dev rnd (gather rnd c now n 0 []) (averageTime r)"
    by blast
  have c: "length (gather rnd c now n 0 []) = n" by (simp add: length_gather)
  have v: "816496580 / 1000000000 < (3677173697615391 / 4503599627370496 :: real)"
    "(3677173697615391 / 4503599627370496 :: real) < 816496581 / 1000000000"
    by simp_all
  have d: "\<bar>3677173697615391 / 4503599627370496 - sqrt (2 / 3 :: real)\<bar> < 1 / 1000000000"
    using v sqrt_two_thirds_bounds by linarith
  have e: "\<bar>sqrt (2 / 3 :: real) - 816 / 1000\<bar> < 1 / 1000"
    using sqrt_two_thirds_bounds by linarith
  have f: "pow2 (- 1100) \<le> \<bar>x\<bar> \<longrightarrow> \<bar>binary64 x - x\<bar> \<le> \<bar>x\<bar> / 2 ^ 53"
    using binary64_rel_error_abs [of x] by blast
  from a b c d e f rounded_std_dev_exact [of xs] run_exact_ramp run_binary64_ramp
  show ?thesis by blast
qed

theorem run_std_dev_rounded_witness:
  "(0 :: nat) < 3 \<and> pow2 (- 1100) \<le> \<bar>1 / 10 :: real\<bar> \<and>
   \<bar>binary64 (1 / 10) - 1 / 10\<bar> \<le> \<bar>1 / 10\<bar> / 2 ^ 53 \<and>
   rounded_std_dev binary64 (gather binary64 nanosecond_clock ramp_clock 3 0 []) 2
     = 3677173697615391 / 4503599627370496 \<and>
   population_mean (gather id nanosecond_clock ramp_clock 3 0 []) = 2 \<and>
   population_std_dev (gather id nanosecond_clock ramp_clock 3 0 []) = sqrt (2 / 3)"
proof -
  have n: "(0 :: nat) < 3" by simp
  note t = run_std_dev_rounded [OF n, of binary64 nanosecond_clock ramp_clock "1 / 10" "[]"]
  from t obtain r r' where
    r: "run id nanosecond_clock ramp_clock 3 = Some r"
      "averageTime r = population_mean (gather id nanosecond_clock ramp_clock 3 0 [])"
      "stdDev r = population_std_dev (gather id nanosecond_clock ramp_clock 3 0 [])" and
    r': "run binary64 nanosecond_clock ramp_clock 3 = Some r'"
      "stdDev r' = rounded_std_dev binary64 (gather binary64 nanosecond_clock ramp_clock 3 0 [])
         (averageTime r')"
    by blast
  from t tenth_normal have e: "\<bar>binary64 (1 / 10) - 1 / 10\<bar> \<le> \<bar>1 / 10\<bar> / 2 ^ 53"
    by blast
  from r(1) have "r = \<lparr>averageTime = 2, minTime = 1, maxTime = 3, stdDev = sqrt (2 / 3),
      iterations = 3\<rparr>"
    by (simp add: run_exact_ramp)
  moreover from r'(1) have "r' = \<lparr>averageTime = 2, minTime = 1, maxTime = 3,
      stdDev = 3677173697615391 / 4503599627370496, iterations = 3\<rparr>"
    by (simp add: run_binary64_ramp)
  ultimately have "rounded_std_dev binary64 (gather binary64 nanosecond_clock ramp_clock 3 0 []) 2
     = 3677173697615391 / 4503599627370496"
    "population_mean (gather id nanosecond_clock ramp_clock 3 0 []) = 2"
    "population_std_dev (gather id nanosecond_clock ramp_clock 3 0 []) = sqrt (2 / 3)"
    using r(2,3) r'(2) by simp_all
  with n tenth_normal e show ?thesis by blast
qed

text \<open>
  Claim C2, as stated, fails in double arithmetic.  Three operations of 100 microseconds
  each give three samples equal to the double 0.1; their sum rounds to 0.30000000000000004
  and the mean to 0.10000000000000002, above the maximum 0.1.  Three operations of 173
  microseconds give a mean below the minimum.
\<close>

theorem mean_outside_min_max_counterexample:
  "map_option averageTime (run binary64 nanosecond_clock (steady_clock 100) 3)
     = Some (7205759403792795 / 72057594037927936) \<and>
   map_option maxTime (run binary64 nanosecond_clock (steady_clock 100) 3)
     = Some (7205759403792794 / 72057594037927936) \<and>
   (7205759403792794 / 72057594037927936 :: real) < 7205759403792795 / 72057594037927936 \<and>
   map_option averageTime (run binary64 nanosecond_clock (steady_clock 173) 3)
     = Some (6232981884280765 / 36028797018963968) \<and>
   map_option minTime (run binary64 nanosecond_clock (steady_clock 173) 3)
     = Some (6232981884280766 / 36028797018963968) \<and>
   (6232981884280765 / 36028797018963968 :: real) < 6232981884280766 / 36028797018963968"
proof -
  have a: "map_option averageTime (run binary64 nanosecond_clock (steady_clock 100) 3)
       = Some (7205759403792795 / 72057594037927936) \<and>
     map_option maxTime (run binary64 nanosecond_clock (steady_clock 100) 3)
       = Some (7205759403792794 / 72057594037927936)"
    unfolding run_def steady_100_samples steady_100_sum Let_def
    by (simp add: steady_100_mean size3)
  have b: "map_option averageTime (run binary64 nanosecond_clock (steady_clock 173) 3)
       = Some (6232981884280765 / 36028797018963968) \<and>
     map_option minTime (run binary64 nanosecond_clock (steady_clock 173) 3)
       = Some (6232981884280766 / 36028797018963968)"
    unfolding run_def steady_173_samples steady_173_sum Let_def
    by (simp add: steady_173_mean size3)
  from a b show ?thesis by simp
qed

text \<open>
  Claim C2, amended.  For \<open>n \<ge> 1\<close> the \<open>Result\<close> of \<open>run\<close> in double arithmetic has
  \<open>iterations = n\<close>, has as \<open>minTime\<close> and \<open>maxTime\<close> the least and the greatest sample, so
  \<open>minTime \<le> maxTime\<close>, and has \<open>stdDev \<ge> 0\<close>.  When \<open>n < 2\<^sup>5\<^sup>3\<close> and no reading after an
  operation is earlier than the reading before it, the samples are non-negative and
  \<open>minTime (1 - 2\<^sup>-\<^sup>5\<^sup>3)\<^sup>n\<^sup>+\<^sup>1 \<le> averageTime \<le> maxTime (1 + 2\<^sup>-\<^sup>5\<^sup>3)\<^sup>n\<^sup>+\<^sup>1\<close>.  The mean computed
  without rounding error lies between \<open>minTime\<close> and \<open>maxTime\<close>.
\<close>

theorem run_result_invariants:
  "0 < n \<Longrightarrow>
   (\<exists>r. run binary64 c now n = Some r \<and> iterations r = n \<and>
        minTime r \<le> maxTime r \<and> 0 \<le> stdDev r \<and>
        minTime r \<in> set (gather binary64 c now n 0 []) \<and>
        maxTime r \<in> set (gather binary64 c now n 0 []) \<and>
        (\<forall>x\<in>set (gather binary64 c now n 0 []). minTime r \<le> x \<and> x \<le> maxTime r) \<and>
        (n < 2 ^ 53 \<and> 0 < period_num c \<and> 0 < period_den c \<and>
         (\<forall>i<n. now (2 * i) \<le> now (2 * i + 1)) \<longrightarrow>
           0 \<le> minTime r \<and>
           minTime r * (1 - 1 / 2 ^ 53) ^ (n + 1) \<le> averageTime r \<and>
           averageTime r \<le> maxTime r * (1 + 1 / 2 ^ 53) ^ (n + 1))) \<and>
   (\<exists>r. run id c now n = Some r \<and> iterations r = n \<and>
        minTime r \<le> averageTime r \<and> averageTime r \<le> maxTime r \<and> 0 \<le> stdDev r)"
proof -
  assume n: "0 < n"
  let ?ts = "gather binary64 c now n 0 []"
  from run_rounded [OF n, of binary64 c now] obtain r where
    r: "run binary64 c now n = Some r" "iterations r = n"
      "averageTime r = fdiv binary64 (foldl (fadd binary64) 0 ?ts) (double_of_size binary64 n)"
      "stdDev r = rounded_std_dev binary64 ?ts (averageTime r)"
      "minTime r \<in> set ?ts" "maxTime r \<in> set ?ts"
      "\<forall>x\<in>set ?ts. minTime r \<le> x \<and> x \<le> maxTime r"
      "minTime r \<le> maxTime r"
    by blast
  have sd: "0 \<le> stdDev r"
    unfolding r(4) by (rule rounded_std_dev_nonneg) (rule binary64_nonneg)
  have mean: "0 \<le> minTime r \<and>
      minTime r * (1 - 1 / 2 ^ 53) ^ (n + 1) \<le> averageTime r \<and>
      averageTime r \<le> maxTime r * (1 + 1 / 2 ^ 53) ^ (n + 1)"
    if h: "n < 2 ^ 53" "0 < period_num c" "0 < period_den c"
      "\<forall>i<n. now (2 * i) \<le> now (2 * i + 1)"
  proof -
    have good: "\<forall>x\<in>set ?ts. x = 0 \<or> pow2 (- 10) \<le> x"
      by (rule gather_good [OF h(2,3,4)])
    with r(5) have "minTime r = 0 \<or> pow2 (- 10) \<le> minTime r" by blast
    then have m0: "0 \<le> minTime r" using pow2_pos [of "- 10"] by auto
    have len: "length ?ts = n" by (simp add: length_gather)
    have lo: "\<forall>x\<in>set ?ts. minTime r \<le> x" and hi: "\<forall>x\<in>set ?ts. x \<le> maxTime r"
      using r(7) by blast+
    from mean_rounded_bounds [OF n h(1) len good lo m0 hi] m0 show ?thesis
      unfolding r(3) by blast
  qed
  from r sd mean have a: "\<exists>r. run binary64 c now n = Some r \<and> iterations r = n \<and>
        minTime r \<le> maxTime r \<and> 0 \<le> stdDev r \<and>
        minTime r \<in> set ?ts \<and> maxTime r \<in> set ?ts \<and>
        (\<forall>x\<in>set ?ts. minTime r \<le> x \<and> x \<le> maxTime r) \<and>
        (n < 2 ^ 53 \<and> 0 < period_num c \<and> 0 < period_den c \<and>
         (\<forall>i<n. now (2 * i) \<le> now (2 * i + 1)) \<longrightarrow>
           0 \<le> minTime r \<and>
           minTime r * (1 - 1 / 2 ^ 53) ^ (n + 1) \<le> averageTime r \<and>
           averageTime r \<le> maxTime r * (1 + 1 / 2 ^ 53) ^ (n + 1))"
    by blast
  from run_exact [OF n, of c now]
  have b: "\<exists>r. run id c now n = Some r \<and> iterations r = n \<and>
        minTime r \<le> averageTime r \<and> averageTime r \<le> maxTime r \<and> 0 \<le> stdDev r"
    by blast
  from a b show ?thesis by blast
qed

theorem run_result_invariants_witness:
  "(0 :: nat) < 3 \<and> (3 :: nat) < 2 ^ 53 \<and>
   0 < period_num nanosecond_clock \<and> 0 < period_den nanosecond_clock \<and>
   ramp_clock 0 \<le> ramp_clock 1 \<and> ramp_clock 2 \<le> ramp_clock 3 \<and>
   ramp_clock 4 \<le> ramp_clock 5 \<and>
   run binary64 nanosecond_clock ramp_clock 3 =
     Some \<lparr>averageTime = 2, minTime = 1, maxTime = 3,
           stdDev = 3677173697615391 / 4503599627370496, iterations = 3\<rparr> \<and>
   (1 :: real) * (1 - 1 / 2 ^ 53) ^ (3 + 1) \<le> 2 \<and>
   (2 :: real) \<le> 3 * (1 + 1 / 2 ^ 53) ^ (3 + 1) \<and>
   (\<exists>r. run id nanosecond_clock ramp_clock 3 = Some r \<and> iterations r = 3 \<and>
        minTime r \<le> averageTime r \<and> averageTime r \<le> maxTime r \<and> 0 \<le> stdDev r)"
proof -
  have n: "(0 :: nat) < 3" by simp
  have h: "(3 :: nat) < 2 ^ 53" "0 < period_num nanosecond_clock"
    "0 < period_den nanosecond_clock"
    by (simp_all add: nanosecond_clock_def)
  have m: "\<forall>i<3. ramp_clock (2 * i) \<le> ramp_clock (2 * i + 1)"
    by (intro allI impI ramp_clock_mono)
  from run_result_invariants [OF n, of nanosecond_clock ramp_clock] obtain r where
    r: "run binary64 nanosecond_clock ramp_clock 3 = Some r"
    and b: "(3 :: nat) < 2 ^ 53 \<and> 0 < period_num nanosecond_clock \<and>
         0 < period_den nanosecond_clock \<and>
         (\<forall>i<3. ramp_clock (2 * i) \<le> ramp_clock (2 * i + 1)) \<longrightarrow>
           0 \<le> minTime r \<and>
           minTime r * (1 - 1 / 2 ^ 53) ^ (3 + 1) \<le> averageTime r \<and>
           averageTime r \<le> maxTime r * (1 + 1 / 2 ^ 53) ^ (3 + 1)"
    and e: "\<exists>r. run id nanosecond_clock ramp_clock 3 = Some r \<and> iterations r = 3 \<and>
        minTime r \<le> averageTime r \<and> averageTime r \<le> maxTime r \<and> 0 \<le> stdDev r"
    by blast
  from r have v: "r = \<lparr>averageTime = 2, minTime = 1, maxTime = 3,
      stdDev = 3677173697615391 / 4503599627370496, iterations = 3\<rparr>"
    by (simp add: run_binary64_ramp)
  from b h m have "minTime r * (1 - 1 / 2 ^ 53) ^ (3 + 1) \<le> averageTime r"
    "averageTime r \<le> maxTime r * (1 + 1 / 2 ^ 53) ^ (3 + 1)"
    by blast+
  then have "(1 :: real) * (1 - 1 / 2 ^ 53) ^ (3 + 1) \<le> 2"
    "(2 :: real) \<le> 3 * (1 + 1 / 2 ^ 53) ^ (3 + 1)"
    unfolding v by (simp_all only: Result.simps)
  moreover have "ramp_clock 0 \<le> ramp_clock 1" "ramp_clock 2 \<le> ramp_clock 3"
    "ramp_clock 4 \<le> ramp_clock 5"
    using ramp_clock_mono [of 0] ramp_clock_mono [of 1] ramp_clock_mono [of 2] by simp_all
  ultimately show ?thesis using n h run_binary64_ramp e by blast
qed

text \<open>A sample is zero only for a zero count of microseconds.\<close>

lemma sample_nonzero_pos:
  assumes "0 < d"
  shows "0 < fdiv binary64 (double_of_int binary64 d) 1000"
proof -
  have "1 \<le> binary64 (of_int d)" using assms by (intro binary64_ge_one) simp
  then have "1 / 1000 \<le> binary64 (of_int d) / 1000" by simp
  moreover have "pow2 (- 1100) \<le> pow2 (- 10)" by (rule pow2_mono) simp
  then have "pow2 (- 1100) \<le> 1 / 1000" by (simp add: pow2_def)
  ultimately have "pow2 (- 1100) \<le> binary64 (of_int d) / 1000" by linarith
  then show ?thesis unfolding fdiv_def double_of_int_def by (rule binary64_pos)
qed

lemma sample_zero_iff:
  "fdiv binary64 (double_of_int binary64 d) 1000 = 0 \<longleftrightarrow> d = 0"
proof (cases "d = 0")
  case True
  then show ?thesis by (simp add: fdiv_def double_of_int_def binary64_0)
next
  case False
  show ?thesis
  proof (cases "0 < d")
    case True
    with sample_nonzero_pos [OF True] show ?thesis by simp
  next
    case neg: False
    with False have "0 < - d" by simp
    from sample_nonzero_pos [OF this]
    have "0 < binary64 (- (binary64 (of_int d) / 1000))"
      by (simp add: fdiv_def double_of_int_def binary64_minus)
    then have "binary64 (binary64 (of_int d) / 1000) < 0"
      by (simp add: binary64_minus)
    with False show ?thesis by (simp add: fdiv_def double_of_int_def)
  qed
qed

text \<open>
  Claim C8, as stated, fails.  On a nanosecond clock an operation that takes 999 ns is
  recorded as 0 ms, in double and in exact arithmetic alike, and one that takes 47.999
  microseconds is recorded as 0.047 ms: the cast to whole microseconds comes before the
  conversion to floating point.
\<close>

theorem sub_microsecond_sample_counterexample:
  "sample binary64 nanosecond_clock 0 999 = 0 \<and> sample id nanosecond_clock 0 999 = 0 \<and>
   sample id nanosecond_clock 0 47999 = 47 / 1000"
  by (simp add: sample_def duration_cast_microseconds_def nanosecond_clock_def fdiv_def
      double_of_int_def binary64_0 signed_divide_int_def)

text \<open>
  Claim C8, amended.  A sample is the elapsed tick count cast to whole microseconds
  (truncating toward zero), converted to double and divided by 1000.0.  Without rounding
  error that is the count divided by 1000; in double arithmetic, for a count below
  \<open>2\<^sup>5\<^sup>3\<close>, it is the double nearest to that quotient.  The sample is zero exactly when the
  count of whole microseconds is zero, so no elapsed time of a microsecond or more is
  recorded as 0.  On a nanosecond clock \<open>d\<close> whole microseconds plus up to 999 ns count as
  \<open>d\<close>; 47 microseconds are recorded as the double 0.047, less than \<open>10\<^sup>-\<^sup>1\<^sup>8\<close> away from
  47/1000.
\<close>

theorem sample_is_truncated_microseconds:
  "sample id c s e = of_int (duration_cast_microseconds c (e - s)) / 1000 \<and>
   (\<bar>duration_cast_microseconds c (e - s)\<bar> < 2 ^ 53 \<longrightarrow>
      sample binary64 c s e = binary64 (of_int (duration_cast_microseconds c (e - s)) / 1000)) \<and>
   (sample binary64 c s e = 0 \<longleftrightarrow> duration_cast_microseconds c (e - s) = 0) \<and>
   (sample id c s e = 0 \<longleftrightarrow> duration_cast_microseconds c (e - s) = 0) \<and>
   (0 \<le> d \<and> 0 \<le> r \<and> r < 1000 \<longrightarrow>
      duration_cast_microseconds nanosecond_clock (1000 * d + r) = d) \<and>
   sample binary64 nanosecond_clock 0 47000 = 3386706919782613 / 72057594037927936 \<and>
   \<bar>3386706919782613 / 72057594037927936 - 47 / 1000 :: real\<bar> < 1 / 10 ^ 18"
proof -
  have a: "sample id c s e = of_int (duration_cast_microseconds c (e - s)) / 1000"
    by (simp add: sample_def fdiv_def double_of_int_def)
  have b: "\<bar>duration_cast_microseconds c (e - s)\<bar> < 2 ^ 53 \<longrightarrow>
      sample binary64 c s e = binary64 (of_int (duration_cast_microseconds c (e - s)) / 1000)"
    by (simp add: sample_def fdiv_def double_of_int_def binary64_of_int)
  have c: "sample binary64 c s e = 0 \<longleftrightarrow> duration_cast_microseconds c (e - s) = 0"
    unfolding sample_def by (rule sample_zero_iff)
  have d: "sample id c s e = 0 \<longleftrightarrow> duration_cast_microseconds c (e - s) = 0"
    by (simp add: a)
  have e: "0 \<le> d \<and> 0 \<le> r \<and> r < 1000 \<longrightarrow>
      duration_cast_microseconds nanosecond_clock (1000 * d + r) = d"
    by (simp add: nanosecond_truncation)
  have "duration_cast_microseconds nanosecond_clock (47000 - 0) = 47"
    using nanosecond_truncation [of 47 0] by simp
  then have f: "sample binary64 nanosecond_clock 0 47000 = 3386706919782613 / 72057594037927936"
    by (simp add: sample_def fdiv_def double_of_int_def binary64_ints double_0047)
  have g: "\<bar>3386706919782613 / 72057594037927936 - 47 / 1000 :: real\<bar> < 1 / 10 ^ 18"
    by simp
  from a b c d e f g show ?thesis by blast
qed

theorem sample_is_truncated_microseconds_witness:
  "\<bar>duration_cast_microseconds nanosecond_clock (47250 - 0)\<bar> < 2 ^ 53 \<and>
   (0 :: int) \<le> 47 \<and> (0 :: int) \<le> 250 \<and> (250 :: int) < 1000 \<and>
   duration_cast_microseconds nanosecond_clock (1000 * 47 + 250) = 47 \<and>
   sample id nanosecond_clock 0 47250 = 47 / 1000 \<and>
   sample binary64 nanosecond_clock 0 47250 = 3386706919782613 / 72057594037927936 \<and>
   sample binary64 nanosecond_clock 0 47250 \<noteq> 0"
proof -
  have t: "duration_cast_microseconds nanosecond_clock (1000 * 47 + 250) = 47"
    using sample_is_truncated_microseconds [of nanosecond_clock 0 0 47 250] by simp
  then have t': "duration_cast_microseconds nanosecond_clock (47250 - 0) = 47" by simp
  show ?thesis
    using sample_is_truncated_microseconds [of nanosecond_clock 0 47250 47 250] t t'
    by (simp add: double_0047)
qed

end
